theory Spec2Isabelle
  imports Complex_Main "HOL-Library.Product_Lexorder" "HOL-Library.Sublist"
begin

unbundle bit_operations_syntax

section \<open>Exceptions\<close>

text \<open>
  The exceptions the modelled code raises or lets through. A function that can raise
  returns a sum, with \<open>Inl\<close> for the exception; a method that also mutates its object
  returns the object next to the outcome, unchanged where the code raised before any
  assignment.
\<close>

datatype error =
    ValueError
  | TypeError
  | IndexError
  | KeyError
  | AttributeError
  | ABSESpyError

section \<open>mediator.py: MainMediator\<close>

subsection \<open>Components and their lifecycle state\<close>

text \<open>
  Modelled from the spec: the \<open>state\<close> attribute of the three components comes from the
  \<open>States\<close> base class of \<open>abses/states.py\<close>, which is not among the sources, as is the
  table \<open>STATES\<close>. The mediator assigns state codes (\<open>user.state = state_code\<close>,
  \<open>sender.state = 1\<close>, \<open>self.human.state = 3\<close>) and compares what it reads back with state
  names (\<open>_states_are("init")\<close>, \<open>_states_are(STATES[state_code])\<close>), so a component
  stores the code assigned last and reading \<open>state\<close> yields the name \<open>STATES\<close> gives that
  code. \<open>STATES\<close> itself is a parameter of every function that uses it: a dictionary
  from codes to names.
\<close>

type_synonym states_table = "int \<rightharpoonup> string"

record component =
  ident :: nat
  user_name :: string
  code :: int

definition set_state :: "int \<Rightarrow> component \<Rightarrow> component" where
  "set_state state_code user = user\<lparr>code := state_code\<rparr>"

definition get_state :: "states_table \<Rightarrow> component \<Rightarrow> error + string" where
  "get_state STATES user =
     (case STATES (code user) of None \<Rightarrow> Inl KeyError | Some nm \<Rightarrow> Inr nm)"

subsection \<open>The mediator\<close>

text \<open>
  \<open>users\<close> is the named tuple \<open>Users(model, human, nature)\<close>: iterating it visits the
  model, the human and the nature module, in this order. \<open>sender\<close> is the pattern
  \<open>_check_sender\<close> stored last, \<open>None\<close> after construction.
\<close>

record mediator =
  model :: component
  human :: component
  nature :: component
  sender :: "string option"

definition users :: "mediator \<Rightarrow> component list" where
  "users med = [model med, human med, nature med]"

text \<open>
  \<open>_states_are\<close>: the list of comparisons is built first (reading a state whose code is
  not in \<open>STATES\<close> raises), then \<open>how\<close> selects \<open>all\<close> or \<open>any\<close>.
\<close>

fun read_states :: "states_table \<Rightarrow> string \<Rightarrow> component list \<Rightarrow> error + bool list" where
  "read_states STATES state [] = Inr []"
| "read_states STATES state (user # rest) =
     (case get_state STATES user of
        Inl e \<Rightarrow> Inl e
      | Inr nm \<Rightarrow>
          (case read_states STATES state rest of
             Inl e \<Rightarrow> Inl e
           | Inr bs \<Rightarrow> Inr ((nm = state) # bs)))"

definition states_are :: "states_table \<Rightarrow> mediator \<Rightarrow> string \<Rightarrow> string \<Rightarrow> error + bool" where
  "states_are STATES med state how =
     (case read_states STATES state (users med) of
        Inl e \<Rightarrow> Inl e
      | Inr states \<Rightarrow>
          if how = ''all'' then Inr (list_all (\<lambda>b. b) states)
          else if how = ''any'' then Inr (list_ex (\<lambda>b. b) states)
          else Inl ValueError)"

text \<open>
  \<open>_change_state\<close>: a code outside \<open>STATES\<close> raises before any assignment; otherwise
  every user gets the code and the result is \<open>_states_are(STATES[state_code])\<close>.
\<close>

definition change_state :: "states_table \<Rightarrow> int \<Rightarrow> mediator \<Rightarrow> (error + bool) \<times> mediator" where
  "change_state STATES state_code med =
     (case STATES state_code of
        None \<Rightarrow> (Inl ValueError, med)
      | Some nm \<Rightarrow>
          (let med' = med\<lparr>model := set_state state_code (model med),
                          human := set_state state_code (human med),
                          nature := set_state state_code (nature med)\<rparr>
           in (states_are STATES med' nm ''all'', med')))"

text \<open>
  \<open>__init__\<close> binds the three components, clears \<open>sender\<close> and ends with
  \<open>_change_state(0)\<close>; the back references \<open>user.mediator\<close> and the logger are not
  modelled. The constructor raises what \<open>_change_state(0)\<close> raises.
\<close>

definition MainMediator_init ::
  "states_table \<Rightarrow> component \<Rightarrow> component \<Rightarrow> component \<Rightarrow> error + mediator" where
  "MainMediator_init STATES m h n =
     (case change_state STATES 0 \<lparr>model = m, human = h, nature = n, sender = None\<rparr> of
        (Inl e, _) \<Rightarrow> Inl e
      | (Inr _, med) \<Rightarrow> Inr med)"

subsection \<open>Senders and request routing\<close>

text \<open>
  A sender is an object: its class and its identity. The constructor's annotations type
  the bound components (\<open>model: MainModel\<close>, \<open>human: BaseHuman\<close>, \<open>nature: BaseNature\<close>),
  so \<open>sender is self.model\<close> holds exactly for the \<open>MainModel\<close> object with the bound
  model's identity, and likewise for the other two; \<open>isinstance(sender, Actor)\<close> holds
  exactly for the objects of class \<open>Actor\<close>.
\<close>

datatype pyobject =
    MainModel nat
  | BaseHuman nat
  | BaseNature nat
  | Actor nat
  | Other nat

definition is_model :: "mediator \<Rightarrow> pyobject \<Rightarrow> bool" where
  "is_model med obj = (obj = MainModel (ident (model med)))"

definition is_human :: "mediator \<Rightarrow> pyobject \<Rightarrow> bool" where
  "is_human med obj = (obj = BaseHuman (ident (human med)))"

definition is_nature :: "mediator \<Rightarrow> pyobject \<Rightarrow> bool" where
  "is_nature med obj = (obj = BaseNature (ident (nature med)))"

fun isinstance_Actor :: "pyobject \<Rightarrow> bool" where
  "isinstance_Actor (Actor _) = True"
| "isinstance_Actor _ = False"

definition check_sender :: "mediator \<Rightarrow> pyobject \<Rightarrow> error + mediator" where
  "check_sender med obj =
     (if is_model med obj then Inr (med\<lparr>sender := Some ''model''\<rparr>)
      else if is_human med obj then Inr (med\<lparr>sender := Some ''human''\<rparr>)
      else if is_nature med obj then Inr (med\<lparr>sender := Some ''nature''\<rparr>)
      else if isinstance_Actor obj then Inr (med\<lparr>sender := Some ''agent''\<rparr>)
      else Inl TypeError)"

definition sender_matches :: "mediator \<Rightarrow> string list \<Rightarrow> bool" where
  "sender_matches med args = list_ex (\<lambda>b. b) (map (\<lambda>arg. sender med = Some arg) args)"

text \<open>
  \<open>transfer_request\<close>. \<open>nature.get_patch\<close> is not among the sources: it is the parameter
  \<open>get_patch\<close>, from the nature module, the attribute name and the keyword arguments
  to the outcome of the call, whatever that is. The function returns that outcome
  (\<open>Some\<close>) or Python's \<open>None\<close>.
\<close>

definition transfer_request ::
  "(component \<Rightarrow> string \<Rightarrow> 'k \<Rightarrow> 'r) \<Rightarrow> mediator \<Rightarrow> pyobject \<Rightarrow> string \<Rightarrow> 'k \<Rightarrow>
     (error + 'r option) \<times> mediator" where
  "transfer_request get_patch med obj attr kwargs =
     (case check_sender med obj of
        Inl e \<Rightarrow> (Inl e, med)
      | Inr med' \<Rightarrow>
          (Inr (if sender_matches med' [''agent'', ''human'']
                then Some (get_patch (nature med') attr kwargs)
                else None),
           med'))"

subsection \<open>Concrete instances\<close>

text \<open>
  A table with the codes and names that the mediator's own code uses (it assigns 0, 1
  and 3 and compares with \<open>new\<close> and \<open>init\<close>; its events are \<open>_new\<close>, \<open>_init\<close>,
  \<open>_ready\<close> and \<open>_complete\<close>), and three components, for concrete instances.
\<close>

definition STATES_sample :: states_table where
  "STATES_sample = [0 \<mapsto> ''new'', 1 \<mapsto> ''init'', 2 \<mapsto> ''ready'', 3 \<mapsto> ''complete'']"

definition med_sample :: mediator where
  "med_sample =
     \<lparr>model = \<lparr>ident = 0, user_name = ''model'', code = 0\<rparr>,
      human = \<lparr>ident = 1, user_name = ''human'', code = 1\<rparr>,
      nature = \<lparr>ident = 2, user_name = ''nature'', code = 0\<rparr>,
      sender = None\<rparr>"

section \<open>human.py: HumanModule\<close>

subsection \<open>The module and its saved selections\<close>

text \<open>
  \<open>agents\<close> is what the container \<open>self._agents\<close> holds, so that the property \<open>actors\<close>
  (\<open>self.agents.to_list()\<close>) is that list; \<open>collections\<close> is the dictionary
  \<open>self._collections\<close> from names to selections. \<open>ActorsList.select\<close> is not among the
  sources: it is the parameter \<open>select\<close>, from the actors and a selection to the selected
  actors or the exception the call raises.
\<close>

record ('a, 's) human_module =
  agents :: "'a list"
  collections :: "string \<rightharpoonup> 's"

definition actors :: "('a, 's) human_module \<Rightarrow> 'a list" where
  "actors M = agents M"

text \<open>
  \<open>define\<close>, here \<open>define_selection\<close> (\<open>define\<close> is a keyword of Isabelle): the
  selection is evaluated first and stored after, so a selection on which \<open>select\<close>
  raises is not stored.
\<close>

definition define_selection ::
  "('a list \<Rightarrow> 's \<Rightarrow> error + 'a list) \<Rightarrow> string \<Rightarrow> 's \<Rightarrow> ('a, 's) human_module \<Rightarrow>
     (error + 'a list) \<times> ('a, 's) human_module" where
  "define_selection select name selection M =
     (case select (actors M) selection of
        Inl e \<Rightarrow> (Inl e, M)
      | Inr selected \<Rightarrow> (Inr selected, M\<lparr>collections := (collections M)(name \<mapsto> selection)\<rparr>))"

text \<open>
  What reading an attribute of the module gives. Python looks the name up on the instance
  and its classes first and calls \<open>__getattr__\<close> only when that finds nothing. The class
  \<open>HumanModule\<close> itself defines the properties \<open>agents\<close> and \<open>actors\<close> and the methods
  \<open>define\<close>, \<open>arena\<close> and \<open>require\<close>, and its \<open>__init__\<close> sets \<open>_agents\<close>,
  \<open>_collections\<close> and \<open>_rules\<close>. What the base class \<open>Module\<close> adds is not among the
  sources: \<open>inherited\<close> says which further names the ordinary lookup finds, and
  \<open>super().__getattr__(name)\<close> is the value \<open>FromSuper name\<close>.
\<close>

datatype 'a attribute =
    Container "'a list"
  | ActorsList "'a list"
  | Method string
  | Private string
  | Inherited string
  | Selected "'a list"
  | FromSuper string

definition class_attributes :: "string list" where
  "class_attributes = [''agents'', ''actors'', ''define'', ''arena'', ''require'']"

definition instance_attributes :: "string list" where
  "instance_attributes = [''_agents'', ''_collections'', ''_rules'']"

text \<open>\<open>__getattr__\<close>: \<open>name[0]\<close> raises \<open>IndexError\<close> on the empty name.\<close>

definition getattr_hook ::
  "('a list \<Rightarrow> 's \<Rightarrow> error + 'a list) \<Rightarrow> ('a, 's) human_module \<Rightarrow> string \<Rightarrow>
     error + 'a attribute" where
  "getattr_hook select M name =
     (case name of
        [] \<Rightarrow> Inl IndexError
      | c # _ \<Rightarrow>
          if c = CHR ''_'' \<or> collections M name = None then Inr (FromSuper name)
          else
            (case collections M name of
               None \<Rightarrow> Inl KeyError
             | Some selection \<Rightarrow>
                 (case select (actors M) selection of
                    Inl e \<Rightarrow> Inl e
                  | Inr selected \<Rightarrow> Inr (Selected selected))))"

definition read_attribute ::
  "(string \<Rightarrow> bool) \<Rightarrow> ('a list \<Rightarrow> 's \<Rightarrow> error + 'a list) \<Rightarrow> ('a, 's) human_module \<Rightarrow>
     string \<Rightarrow> error + 'a attribute" where
  "read_attribute inherited select M name =
     (if name = ''agents'' then Inr (Container (agents M))
      else if name = ''actors'' then Inr (ActorsList (actors M))
      else if name \<in> set class_attributes then Inr (Method name)
      else if name \<in> set instance_attributes then Inr (Private name)
      else if inherited name then Inr (Inherited name)
      else getattr_hook select M name)"

subsection \<open>Pairwise interaction\<close>

text \<open>
  \<open>trigger\<close> (of \<open>ActorsList\<close> and \<open>Actor\<close>) is not among the sources. A call
  \<open>receiver.trigger(interaction, argument)\<close> is recorded in a trace of the calls made, and
  the parameter \<open>raises\<close> says which calls raise, and what.
\<close>

datatype ('g, 'f) trigger_call = Trigger 'g 'f 'g

definition trigger ::
  "(('g, 'f) trigger_call \<Rightarrow> error option) \<Rightarrow> 'g \<Rightarrow> 'f \<Rightarrow> 'g \<Rightarrow> ('g, 'f) trigger_call list \<Rightarrow>
     error option \<times> ('g, 'f) trigger_call list" where
  "trigger raises receiver interaction argument trace =
     (raises (Trigger receiver interaction argument),
      trace @ [Trigger receiver interaction argument])"

definition arena ::
  "(('g, 'f) trigger_call \<Rightarrow> error option) \<Rightarrow> 'g \<Rightarrow> 'g \<Rightarrow> 'f \<Rightarrow> ('g, 'f) trigger_call list \<Rightarrow>
     error option \<times> ('g, 'f) trigger_call list" where
  "arena raises actor_1 actor_2 interaction trace =
     (case trigger raises actor_1 interaction actor_2 trace of
        (Some e, trace1) \<Rightarrow> (Some e, trace1)
      | (None, trace1) \<Rightarrow> trigger raises actor_2 interaction actor_1 trace1)"

text \<open>A selection by threshold over actors numbered by naturals, for concrete instances.\<close>

definition select_below :: "nat list \<Rightarrow> nat \<Rightarrow> error + nat list" where
  "select_below xs bound = Inr (filter (\<lambda>a. a < bound) xs)"

definition human_sample :: "(nat, nat) human_module" where
  "human_sample = \<lparr>agents = [1, 2, 3], collections = Map.empty\<rparr>"

section \<open>random.py: ListRandom\<close>

subsection \<open>choice\<close>

text \<open>
  \<open>numpy\<close>'s \<open>Generator.choice\<close> is external and random. The parameter \<open>draw\<close> is what the
  generator does for the arguments it is called with: the sample it returns, or the
  exception it raises (sizes and probabilities it rejects). One rejection is fixed here,
  the one the docstring of \<open>choice\<close> records under \<open>Raises\<close> (\<open>ValueError\<close> for a size that
  is not positive): a negative size is a \<open>ValueError\<close>. The parameter \<open>size\<close> of the
  source is \<open>sz\<close> here (\<open>size\<close> is a constant of HOL).
\<close>

definition generator_choice ::
  "('a list \<Rightarrow> int \<Rightarrow> bool \<Rightarrow> 'q option \<Rightarrow> error + 'a list) \<Rightarrow>
     'a list \<Rightarrow> int \<Rightarrow> bool \<Rightarrow> 'q option \<Rightarrow> error + 'a list" where
  "generator_choice draw a sz replace p =
     (if sz < 0 then Inl ValueError else draw a sz replace p)"

text \<open>
  \<open>clean_p\<close> computes on floating-point arrays (and reads an attribute of the actors when
  given a string): it is the parameter \<open>clean_p\<close>, from the probabilities given to the
  cleaned ones or an exception. \<open>clean_prob\<close> is the statement
  \<open>if prob is not None: prob = self.clean_p(prob=prob)\<close>.
\<close>

definition clean_prob :: "('p \<Rightarrow> error + 'q) \<Rightarrow> 'p option \<Rightarrow> error + 'q option" where
  "clean_prob clean_p prob =
     (case prob of
        None \<Rightarrow> Inr None
      | Some pr \<Rightarrow> (case clean_p pr of Inl e \<Rightarrow> Inl e | Inr q \<Rightarrow> Inr (Some q)))"

text \<open>
  The result of \<open>choice\<close>: \<open>chosen[0]\<close>, one actor, or an \<open>ActorsList\<close> of the chosen ones.
\<close>

datatype 'a chosen = OneActor 'a | ManyActors "'a list"

text \<open>
  The guard is \<open>not instances_num or (instances_num < size & ~replace)\<close>. In Python \<open>&\<close>
  binds tighter than \<open><\<close>, and \<open>~\<close> of a \<open>bool\<close> is that of the integer 0 or 1, so the
  comparison is of \<open>instances_num\<close> with the integer \<open>size & ~replace\<close>.
\<close>

definition choice ::
  "('a list \<Rightarrow> int \<Rightarrow> bool \<Rightarrow> 'q option \<Rightarrow> error + 'a list) \<Rightarrow> ('p \<Rightarrow> error + 'q) \<Rightarrow>
     'a list \<Rightarrow> int \<Rightarrow> 'p option \<Rightarrow> bool \<Rightarrow> bool \<Rightarrow> error + 'a chosen" where
  "choice draw clean_p actors_list sz prob replace as_list =
     (let instances_num = int (length actors_list) in
      if instances_num = 0 \<or> instances_num < (sz AND NOT (of_bool replace))
      then Inl ABSESpyError
      else
        (case clean_prob clean_p prob of
           Inl e \<Rightarrow> Inl e
         | Inr prob' \<Rightarrow>
             (case generator_choice draw actors_list sz replace prob' of
                Inl e \<Rightarrow> Inl e
              | Inr chosen \<Rightarrow>
                  if sz = 1 \<and> \<not> as_list
                  then (case chosen of [] \<Rightarrow> Inl IndexError | c # _ \<Rightarrow> Inr (OneActor c))
                  else Inr (ManyActors chosen))))"

subsection \<open>link\<close>

text \<open>
  \<open>itertools.combinations(xs, 2)\<close>: the pairs of elements at positions \<open>i < j\<close>, in
  lexicographic order of the positions.
\<close>

fun combinations2 :: "'a list \<Rightarrow> ('a \<times> 'a) list" where
  "combinations2 [] = []"
| "combinations2 (x # xs) = map (Pair x) xs @ combinations2 xs"

text \<open>
  \<open>Actor.link_to\<close> is not among the sources. A call
  \<open>actor1.link_to(actor2, link=link, mutual=mutual)\<close> is recorded in a trace of the calls
  made, and the parameter \<open>raises\<close> says which calls raise, and what. \<open>draws k\<close> is what
  the \<open>k\<close>-th call of \<open>np.random.random()\<close> returns; every pair of the loop consumes one.
\<close>

datatype 'a link_call = LinkTo 'a 'a string bool

fun link_loop ::
  "(nat \<Rightarrow> real) \<Rightarrow> ('a link_call \<Rightarrow> error option) \<Rightarrow> string \<Rightarrow> real \<Rightarrow> ('a \<times> 'a) list \<Rightarrow>
     nat \<Rightarrow> ('a \<times> 'a) list \<Rightarrow> 'a link_call list \<Rightarrow>
     (error + ('a \<times> 'a) list) \<times> 'a link_call list" where
  "link_loop draws raises lnk p [] k linked_combs trace = (Inr linked_combs, trace)"
| "link_loop draws raises lnk p ((actor1, actor2) # rest) k linked_combs trace =
     (if draws k < p then
        (case raises (LinkTo actor1 actor2 lnk True) of
           Some e \<Rightarrow> (Inl e, trace @ [LinkTo actor1 actor2 lnk True])
         | None \<Rightarrow>
             link_loop draws raises lnk p rest (Suc k) (linked_combs @ [(actor1, actor2)])
               (trace @ [LinkTo actor1 actor2 lnk True]))
      else link_loop draws raises lnk p rest (Suc k) linked_combs trace)"

definition link ::
  "(nat \<Rightarrow> real) \<Rightarrow> ('a link_call \<Rightarrow> error option) \<Rightarrow> 'a list \<Rightarrow> string \<Rightarrow> real \<Rightarrow>
     'a link_call list \<Rightarrow> (error + ('a \<times> 'a) list) \<times> 'a link_call list" where
  "link draws raises actors_list lnk p trace =
     link_loop draws raises lnk p (combinations2 actors_list) 0 [] trace"

text \<open>
  A generator that draws the first \<open>size\<close> actors, and a cleaning that accepts what it is
  given, for concrete instances.
\<close>

definition draw_first :: "'a list \<Rightarrow> int \<Rightarrow> bool \<Rightarrow> unit option \<Rightarrow> error + 'a list" where
  "draw_first a sz replace p = Inr (take (nat sz) a)"

definition clean_accept :: "unit \<Rightarrow> error + unit" where
  "clean_accept pr = Inr pr"

section \<open>nature.py: PatchModule\<close>

subsection \<open>Python lists and slices\<close>

text \<open>
  An integer index into a sequence of length \<open>n\<close>, for a Python list as for an axis of a
  \<open>numpy\<close> array: a negative index counts from the end, an index out of range raises
  \<open>IndexError\<close>.
\<close>

definition wrap_index :: "nat \<Rightarrow> int \<Rightarrow> error + nat" where
  "wrap_index n i =
     (let j = (if i < 0 then i + int n else i)
      in if 0 \<le> j \<and> j < int n then Inr (nat j) else Inl IndexError)"

definition py_nth :: "'a list \<Rightarrow> int \<Rightarrow> error + 'a" where
  "py_nth xs i = (case wrap_index (length xs) i of Inl e \<Rightarrow> Inl e | Inr j \<Rightarrow> Inr (xs ! j))"

text \<open>
  A slice \<open>slice(start, stop, step)\<close>, each part optional, and the positions it selects in
  a list of length \<open>n\<close>, in the order it selects them: Python clamps \<open>start\<close> and \<open>stop\<close>
  into the list after adding \<open>n\<close> to a negative one, and refuses the step 0.
\<close>

datatype slice = Slice "int option" "int option" "int option"

definition clamp_slice_bound :: "int \<Rightarrow> int \<Rightarrow> int \<Rightarrow> int \<Rightarrow> int" where
  "clamp_slice_bound n lower upper v =
     (let v' = (if v < 0 then v + n else v)
      in if v' < lower then lower else if upper < v' then upper else v')"

fun slice_positions :: "slice \<Rightarrow> nat \<Rightarrow> error + nat list" where
  "slice_positions (Slice start stop step) len =
     (let n = int len; st = (case step of None \<Rightarrow> 1 | Some s \<Rightarrow> s) in
      if st = 0 then Inl ValueError
      else if 0 < st then
        (let a = (case start of None \<Rightarrow> 0 | Some v \<Rightarrow> clamp_slice_bound n 0 n v);
             b = (case stop of None \<Rightarrow> n | Some v \<Rightarrow> clamp_slice_bound n 0 n v)
         in Inr (map nat (filter (\<lambda>i. (i - a) mod st = 0) [a..b - 1])))
      else
        (let a = (case start of None \<Rightarrow> n - 1 | Some v \<Rightarrow> clamp_slice_bound n (- 1) (n - 1) v);
             b = (case stop of None \<Rightarrow> - 1 | Some v \<Rightarrow> clamp_slice_bound n (- 1) (n - 1) v)
         in Inr (map nat (filter (\<lambda>i. (a - i) mod (- st) = 0) (rev [b + 1..a])))))"

definition py_slice :: "'a list \<Rightarrow> slice \<Rightarrow> error + 'a list" where
  "py_slice xs sl =
     (case slice_positions sl (length xs) of
        Inl e \<Rightarrow> Inl e
      | Inr ps \<Rightarrow> Inr (map (\<lambda>i. xs ! i) ps))"

subsection \<open>numpy arrays\<close>

text \<open>
  An array is its shape and its elements in row-major order, as \<open>numpy\<close> lays out a
  contiguous array; a well-formed array has as many elements as its shape says.
  \<open>item2\<close> and \<open>item3\<close> read \<open>A[i, j]\<close> and \<open>A[i, j, k]\<close> with the indices \<open>numpy\<close> accepts:
  integers, negative ones counting from the end, \<open>IndexError\<close> out of range.
\<close>

record 'a ndarray =
  shape :: "nat list"
  flat :: "'a list"

definition wf_array :: "'a ndarray \<Rightarrow> bool" where
  "wf_array A = (length (flat A) = prod_list (shape A))"

definition item2 :: "'a ndarray \<Rightarrow> int \<Rightarrow> int \<Rightarrow> error + 'a" where
  "item2 A i j =
     (case shape A of
        [m, n] \<Rightarrow>
          (case wrap_index m i of
             Inl e \<Rightarrow> Inl e
           | Inr i' \<Rightarrow>
               (case wrap_index n j of
                  Inl e \<Rightarrow> Inl e
                | Inr j' \<Rightarrow> Inr (flat A ! (i' * n + j'))))
      | _ \<Rightarrow> Inl IndexError)"

definition item3 :: "'a ndarray \<Rightarrow> int \<Rightarrow> int \<Rightarrow> int \<Rightarrow> error + 'a" where
  "item3 A b i j =
     (case shape A of
        [l, m, n] \<Rightarrow>
          (case wrap_index l b of
             Inl e \<Rightarrow> Inl e
           | Inr b' \<Rightarrow>
               (case wrap_index m i of
                  Inl e \<Rightarrow> Inl e
                | Inr i' \<Rightarrow>
                    (case wrap_index n j of
                       Inl e \<Rightarrow> Inl e
                     | Inr j' \<Rightarrow> Inr (flat A ! ((b' * m + i') * n + j')))))
      | _ \<Rightarrow> Inl IndexError)"

text \<open>
  \<open>np.empty(shape)\<close> is a \<open>float64\<close> array of that shape whose content is whatever the memory
  held: \<open>junk k\<close> at position \<open>k\<close>. Assigning \<open>A[b, i, j] = v\<close> into it converts \<open>v\<close> to
  \<open>float64\<close>; that conversion belongs to \<open>numpy\<close> and is the parameter \<open>to_float64\<close>, from a
  value to its \<open>float64\<close> value or to the exception raised for a value that has none.
\<close>

definition np_empty :: "(nat \<Rightarrow> 'a) \<Rightarrow> nat list \<Rightarrow> 'a ndarray" where
  "np_empty junk shp = \<lparr>shape = shp, flat = map junk [0..<prod_list shp]\<rparr>"

definition setitem3 ::
  "('a \<Rightarrow> error + 'a) \<Rightarrow> 'a ndarray \<Rightarrow> int \<Rightarrow> int \<Rightarrow> int \<Rightarrow> 'a \<Rightarrow> error + 'a ndarray" where
  "setitem3 to_float64 A b i j v =
     (case shape A of
        [l, m, n] \<Rightarrow>
          (case wrap_index l b of
             Inl e \<Rightarrow> Inl e
           | Inr b' \<Rightarrow>
               (case wrap_index m i of
                  Inl e \<Rightarrow> Inl e
                | Inr i' \<Rightarrow>
                    (case wrap_index n j of
                       Inl e \<Rightarrow> Inl e
                     | Inr j' \<Rightarrow>
                         (case to_float64 v of
                            Inl e \<Rightarrow> Inl e
                          | Inr f \<Rightarrow> Inr (A\<lparr>flat := (flat A)[(b' * m + i') * n + j' := f]\<rparr>)))))
      | _ \<Rightarrow> Inl IndexError)"

text \<open>\<open>reshape\<close> keeps the elements and their order; the sizes must agree.\<close>

definition reshape :: "'a ndarray \<Rightarrow> nat list \<Rightarrow> error + 'a ndarray" where
  "reshape A shp =
     (if prod_list shp = prod_list (shape A) then Inr (A\<lparr>shape := shp\<rparr>) else Inl ValueError)"

text \<open>
  \<open>np.array\<close> of a list of equally long lists of objects is the two-dimensional array of
  these objects (of the empty list, the empty one-dimensional array); \<open>.T\<close> transposes a
  two-dimensional array and leaves a one-dimensional one as it is; \<open>np.flipud\<close> reverses
  the order of the rows (of the elements, for one dimension). No other shapes arise from
  \<open>array_cells\<close>.
\<close>

definition np_array :: "'a list list \<Rightarrow> 'a ndarray" where
  "np_array rows =
     (case rows of
        [] \<Rightarrow> \<lparr>shape = [0], flat = []\<rparr>
      | r # _ \<Rightarrow> \<lparr>shape = [length rows, length r], flat = concat rows\<rparr>)"

definition np_T :: "'a ndarray \<Rightarrow> 'a ndarray" where
  "np_T A =
     (case shape A of
        [m, n] \<Rightarrow>
          \<lparr>shape = [n, m], flat = map (\<lambda>k. flat A ! ((k mod m) * n + k div m)) [0..<n * m]\<rparr>
      | _ \<Rightarrow> A)"

definition np_flipud :: "'a ndarray \<Rightarrow> 'a ndarray" where
  "np_flipud A =
     (case shape A of
        [m, n] \<Rightarrow>
          \<lparr>shape = [m, n],
           flat = map (\<lambda>k. flat A ! ((m - 1 - k div n) * n + k mod n)) [0..<m * n]\<rparr>
      | [m] \<Rightarrow> \<lparr>shape = [m], flat = rev (flat A)\<rparr>
      | _ \<Rightarrow> A)"

subsection \<open>Cells and the layer\<close>

text \<open>
  A cell (the class \<open>PatchCell\<close> is not among the sources) as the layer uses it: it is
  created with its position and its array indices, and \<open>setattr\<close> and \<open>getattr\<close> store and
  read attributes by name, \<open>getattr\<close> raising \<open>AttributeError\<close> for a name never stored.
  The properties a cell class may declare (\<open>cell_properties\<close>) enter the model as names
  only.
\<close>

record 'v cell =
  pos :: "int \<times> int"
  indices :: "int \<times> int"
  attrs :: "string \<rightharpoonup> 'v"

definition setattr :: "'v cell \<Rightarrow> string \<Rightarrow> 'v \<Rightarrow> 'v cell" where
  "setattr c a v = c\<lparr>attrs := (attrs c)(a \<mapsto> v)\<rparr>"

definition getattr :: "'v cell \<Rightarrow> string \<Rightarrow> error + 'v" where
  "getattr c a = (case attrs c a of None \<Rightarrow> Inl AttributeError | Some v \<Rightarrow> Inr v)"

text \<open>
  The layer. \<open>width\<close> and \<open>height\<close> come from \<open>RasterBase\<close>; \<open>own_attributes\<close> is the set
  \<open>_attributes\<close> and \<open>cell_properties\<close> the set \<open>cell_cls.__attribute_properties__()\<close>, both
  as lists without repetition (Python does not specify the order in which a set is
  iterated; the model iterates in the order of the list). \<open>cls_dict_len\<close> is
  \<open>len(self.cell_cls.__dict__)\<close>. Of the base class \<open>Module\<close>, which is not among the
  sources, the layer keeps \<open>dynamic_variables\<close>, the array \<open>super().dynamic_var(name)\<close>
  computes for each dynamic variable, and \<open>tick\<close>, the value of \<open>self.time.tick\<close>.
\<close>

record 'v layer =
  width :: nat
  height :: nat
  cells :: "'v cell list list"
  own_attributes :: "string list"
  updated_ticks :: "int list"
  cell_properties :: "string list"
  cls_dict_len :: nat
  dynamic_variables :: "string \<rightharpoonup> 'v ndarray"
  tick :: int

text \<open>
  \<open>__init__\<close>: \<open>width\<close> columns of \<open>height\<close> cells each, the cell of column \<open>x\<close> and place \<open>y\<close>
  created with \<open>pos = (x, y)\<close> and \<open>indices = (height - y - 1, x)\<close>.
\<close>

definition new_cell :: "nat \<Rightarrow> nat \<Rightarrow> nat \<Rightarrow> 'v cell" where
  "new_cell h x y =
     \<lparr>pos = (int x, int y), indices = (int h - int y - 1, int x), attrs = Map.empty\<rparr>"

definition PatchModule_init ::
  "nat \<Rightarrow> nat \<Rightarrow> string list \<Rightarrow> nat \<Rightarrow> (string \<rightharpoonup> 'v ndarray) \<Rightarrow> int \<Rightarrow> 'v layer" where
  "PatchModule_init w h props dict_len dyn t =
     \<lparr>width = w, height = h,
      cells = map (\<lambda>x. map (\<lambda>y. new_cell h x y) [0..<h]) [0..<w],
      own_attributes = [], updated_ticks = [],
      cell_properties = props, cls_dict_len = dict_len,
      dynamic_variables = dyn, tick = t\<rparr>"

text \<open>
  What every layer satisfies that \<open>__init__\<close> built and the methods below changed: as many
  columns as the width, each as long as the height.
\<close>

definition wf_layer :: "'v layer \<Rightarrow> bool" where
  "wf_layer L =
     (length (cells L) = width L \<and> list_all (\<lambda>col. length col = height L) (cells L))"

definition attributes :: "'v layer \<Rightarrow> string list" where
  "attributes L = List.union (own_attributes L) (cell_properties L)"

definition shape2d :: "'v layer \<Rightarrow> nat list" where
  "shape2d L = [height L, width L]"

definition shape3d :: "'v layer \<Rightarrow> nat list" where
  "shape3d L = [1, height L, width L]"

definition array_cells :: "'v layer \<Rightarrow> 'v cell ndarray" where
  "array_cells L = np_flipud (np_T (np_array (cells L)))"

subsection \<open>Indexing the layer\<close>

text \<open>
  The index of \<open>__getitem__\<close>: an integer, a sequence of coordinates, or a pair each part
  of which is an integer or a slice. The result is a column, a list of cells, or a cell.
\<close>

datatype index_part = I int | S slice

datatype index = Idx int | Coords "(int \<times> int) list" | Pair2 index_part index_part

datatype 'c item = Column "'c list" | Cells "'c list" | Cell 'c

fun cells_at :: "'c list list \<Rightarrow> (int \<times> int) list \<Rightarrow> error + 'c list" where
  "cells_at cs [] = Inr []"
| "cells_at cs ((x1, y1) # rest) =
     (case py_nth cs x1 of
        Inl e \<Rightarrow> Inl e
      | Inr col \<Rightarrow>
          (case py_nth col y1 of
             Inl e \<Rightarrow> Inl e
           | Inr c \<Rightarrow>
               (case cells_at cs rest of
                  Inl e \<Rightarrow> Inl e
                | Inr found \<Rightarrow> Inr (c # found))))"

fun extend_rows :: "'c list list \<Rightarrow> slice \<Rightarrow> error + 'c list" where
  "extend_rows [] y = Inr []"
| "extend_rows (rows # rest) y =
     (case py_slice rows y of
        Inl e \<Rightarrow> Inl e
      | Inr part \<Rightarrow>
          (case extend_rows rest y of
             Inl e \<Rightarrow> Inl e
           | Inr found \<Rightarrow> Inr (part @ found)))"

fun as_slice :: "index_part \<Rightarrow> slice" where
  "as_slice (I x) = Slice (Some x) (Some (x + 1)) None"
| "as_slice (S sl) = sl"

fun getitem :: "'v layer \<Rightarrow> index \<Rightarrow> error + 'v cell item" where
  "getitem L (Idx i) =
     (case py_nth (cells L) i of Inl e \<Rightarrow> Inl e | Inr col \<Rightarrow> Inr (Column col))"
| "getitem L (Coords []) = Inl IndexError"
| "getitem L (Coords ps) =
     (case cells_at (cells L) ps of Inl e \<Rightarrow> Inl e | Inr found \<Rightarrow> Inr (Cells found))"
| "getitem L (Pair2 (I x) (I y)) =
     (case py_nth (cells L) x of
        Inl e \<Rightarrow> Inl e
      | Inr col \<Rightarrow> (case py_nth col y of Inl e \<Rightarrow> Inl e | Inr c \<Rightarrow> Inr (Cell c)))"
| "getitem L (Pair2 x y) =
     (case py_slice (cells L) (as_slice x) of
        Inl e \<Rightarrow> Inl e
      | Inr cols \<Rightarrow>
          (case extend_rows cols (as_slice y) of
             Inl e \<Rightarrow> Inl e
           | Inr found \<Rightarrow> Inr (Cells found)))"

subsection \<open>Raster data in and out\<close>

text \<open>The decimal digits of a natural number, as an f-string prints it.\<close>

fun show_nat :: "nat \<Rightarrow> string" where
  "show_nat n =
     (if n < 10 then [char_of (48 + n)]
      else show_nat (n div 10) @ [char_of (48 + n mod 10)])"

text \<open>
  \<open>apply_raster\<close>. The shape is checked before anything is assigned. The iteration visits the
  columns \<open>x\<close> and, within each, the places \<open>y\<close>; the cell \<open>cells[x][y]\<close> gets
  \<open>data[0, height - y - 1, x]\<close>. The result is the exception raised, if any, and the layer.
\<close>

definition raster_positions :: "'v layer \<Rightarrow> (nat \<times> nat) list" where
  "raster_positions L = List.product [0..<width L] [0..<height L]"

fun apply_cells ::
  "'v ndarray \<Rightarrow> string \<Rightarrow> nat \<Rightarrow> (nat \<times> nat) list \<Rightarrow> 'v cell list list \<Rightarrow>
     error + 'v cell list list" where
  "apply_cells data a h [] cs = Inr cs"
| "apply_cells data a h ((x, y) # rest) cs =
     (case item3 data 0 (int h - int y - 1) (int x) of
        Inl e \<Rightarrow> Inl e
      | Inr v \<Rightarrow> apply_cells data a h rest (cs[x := (cs ! x)[y := setattr (cs ! x ! y) a v]]))"

definition apply_raster :: "'v ndarray \<Rightarrow> string option \<Rightarrow> 'v layer \<Rightarrow> error option \<times> 'v layer" where
  "apply_raster data attr_name L =
     (if shape data \<noteq> [1, height L, width L] then (Some ValueError, L)
      else
        (let a = (case attr_name of
                    None \<Rightarrow> ''attribute_'' @ show_nat (cls_dict_len L)
                  | Some given \<Rightarrow> given);
             L1 = L\<lparr>own_attributes := List.insert a (own_attributes L)\<rparr>
         in case apply_cells data a (height L) (raster_positions L) (cells L) of
              Inl e \<Rightarrow> (Some e, L1)
            | Inr cs \<Rightarrow> (None, L1\<lparr>cells := cs\<rparr>)))"

text \<open>
  \<open>dynamic_var\<close>. Within a tick already updated the array of the base class is returned
  as it is; otherwise its shape is checked (\<open>_attr_or_array\<close>, called here with an array:
  \<open>ABSESpyError\<close> unless the shape is \<open>shape2d\<close>), it is applied to the cells as a
  three-dimensional raster and the tick is recorded.
\<close>

definition attr_or_array :: "'v layer \<Rightarrow> 'v ndarray \<Rightarrow> error + 'v ndarray" where
  "attr_or_array L data = (if shape data = shape2d L then Inr data else Inl ABSESpyError)"

definition dynamic_var :: "string \<Rightarrow> 'v layer \<Rightarrow> (error + 'v ndarray) \<times> 'v layer" where
  "dynamic_var attr_name L =
     (case dynamic_variables L attr_name of
        None \<Rightarrow> (Inl KeyError, L)
      | Some array \<Rightarrow>
          if tick L \<in> set (updated_ticks L) then (Inr array, L)
          else
            (case attr_or_array L array of
               Inl e \<Rightarrow> (Inl e, L)
             | Inr _ \<Rightarrow>
                 (case reshape array (shape3d L) of
                    Inl e \<Rightarrow> (Inl e, L)
                  | Inr array_3d \<Rightarrow>
                      (case apply_raster array_3d (Some attr_name) L of
                         (Some e, L') \<Rightarrow> (Inl e, L')
                       | (None, L') \<Rightarrow>
                           (Inr array, L'\<lparr>updated_ticks := updated_ticks L' @ [tick L']\<rparr>)))))"

text \<open>
  \<open>get_raster\<close>. A dynamic variable is updated and returned reshaped. Otherwise the bands
  are read from the cells into an array made by \<open>np.empty\<close>: band \<open>ind\<close> is the
  attribute \<open>name\<close>, and \<open>data[ind, height - y - 1, x]\<close> gets the attribute of \<open>cells[x][y]\<close>.
\<close>

fun read_cells ::
  "('v \<Rightarrow> error + 'v) \<Rightarrow> 'v cell list list \<Rightarrow> nat \<Rightarrow> ((nat \<times> string) \<times> nat \<times> nat) list \<Rightarrow>
     'v ndarray \<Rightarrow> error + 'v ndarray" where
  "read_cells to_float64 cs h [] data = Inr data"
| "read_cells to_float64 cs h (((ind, name), x, y) # rest) data =
     (case getattr (cs ! x ! y) name of
        Inl e \<Rightarrow> Inl e
      | Inr v \<Rightarrow>
          (case setitem3 to_float64 data (int ind) (int h - int y - 1) (int x) v of
             Inl e \<Rightarrow> Inl e
           | Inr data' \<Rightarrow> read_cells to_float64 cs h rest data'))"

definition read_bands ::
  "('v \<Rightarrow> error + 'v) \<Rightarrow> (nat \<Rightarrow> 'v) \<Rightarrow> string list \<Rightarrow> 'v layer \<Rightarrow> error + 'v ndarray" where
  "read_bands to_float64 junk attr_names L =
     read_cells to_float64 (cells L) (height L)
       (List.product (enumerate 0 attr_names) (raster_positions L))
       (np_empty junk [length attr_names, height L, width L])"

definition get_raster ::
  "('v \<Rightarrow> error + 'v) \<Rightarrow> (nat \<Rightarrow> 'v) \<Rightarrow> string option \<Rightarrow> 'v layer \<Rightarrow>
     (error + 'v ndarray) \<times> 'v layer" where
  "get_raster to_float64 junk attr_name L =
     (case attr_name of
        None \<Rightarrow> (read_bands to_float64 junk (attributes L) L, L)
      | Some a \<Rightarrow>
          if dynamic_variables L a \<noteq> None then
            (case dynamic_var a L of
               (Inl e, L') \<Rightarrow> (Inl e, L')
             | (Inr array, L') \<Rightarrow> (reshape array (shape3d L'), L'))
          else if a \<notin> set (attributes L) then (Inl ValueError, L)
          else (read_bands to_float64 junk [a] L, L))"

subsection \<open>Neighbourhoods\<close>

text \<open>
  \<open>out_of_bounds\<close> is inherited from \<open>RasterBase\<close> of \<open>mesa-geo\<close>:
  \<open>x < 0 or x >= self.width or y < 0 or y >= self.height\<close>.
\<close>

definition out_of_bounds :: "'v layer \<Rightarrow> int \<times> int \<Rightarrow> bool" where
  "out_of_bounds L coord =
     (case coord of (x, y) \<Rightarrow> x < 0 \<or> int (width L) \<le> x \<or> y < 0 \<or> int (height L) \<le> y)"

text \<open>
  \<open>get_neighborhood\<close>: the body of the loop over \<open>(dy, dx)\<close>, which may add one coordinate
  to the set \<open>coordinates\<close>, and the loop over the product of the two ranges, followed by
  \<open>sorted\<close>. Tuples are ordered lexicographically. (The cache \<open>lru_cache\<close> wraps the
  function in is not modelled.)
\<close>

definition neighborhood_step ::
  "'v layer \<Rightarrow> int \<times> int \<Rightarrow> bool \<Rightarrow> bool \<Rightarrow> int \<Rightarrow> int \<times> int \<Rightarrow> (int \<times> int) set \<Rightarrow>
     (int \<times> int) set" where
  "neighborhood_step L xy moore include_center radius d coordinates =
     (case xy of (x, y) \<Rightarrow> case d of (dy, dx) \<Rightarrow>
        if dx = 0 \<and> dy = 0 \<and> \<not> include_center then coordinates
        else if \<not> moore \<and> radius < \<bar>dx\<bar> + \<bar>dy\<bar> then coordinates
        else
          (let coord = (x + dx, y + dy)
           in if out_of_bounds L coord then coordinates else insert coord coordinates))"

definition get_neighborhood ::
  "'v layer \<Rightarrow> int \<times> int \<Rightarrow> bool \<Rightarrow> bool \<Rightarrow> int \<Rightarrow> (int \<times> int) list" where
  "get_neighborhood L xy moore include_center radius =
     sorted_list_of_set
       (fold (neighborhood_step L xy moore include_center radius)
          (List.product [- radius..radius] [- radius..radius]) {})"

subsection \<open>Concrete instances\<close>

text \<open>
  Values for concrete instances: a \<open>float64\<close> number, which the conversion to \<open>float64\<close>
  leaves as it is, and a string that is no numeral, such as \<open>'a'\<close>, for which the
  conversion raises \<open>ValueError\<close>. \<open>layer_sample\<close> is a fresh layer of width 3 and height 2,
  \<open>raster_sample\<close> and \<open>raster_text\<close> are arrays of its shape.
\<close>

datatype scalar = Float64 int | NonNumeric string

fun to_float64_sample :: "scalar \<Rightarrow> error + scalar" where
  "to_float64_sample (Float64 r) = Inr (Float64 r)"
| "to_float64_sample (NonNumeric s) = Inl ValueError"

definition layer_sample :: "scalar layer" where
  "layer_sample = PatchModule_init 3 2 [] 0 Map.empty 0"

definition raster_text :: "scalar ndarray" where
  "raster_text =
     \<lparr>shape = [1, 2, 3],
      flat = [Float64 10, Float64 11, Float64 12, NonNumeric ''a'', Float64 21, Float64 22]\<rparr>"

definition raster_sample :: "scalar ndarray" where
  "raster_sample =
     \<lparr>shape = [1, 2, 3],
      flat = [Float64 10, Float64 11, Float64 12, Float64 20, Float64 21, Float64 22]\<rparr>"

section \<open>Properties of the mediator\<close>

lemma read_states_same:
  "\<forall>u \<in> set us. STATES (code u) = Some nm \<Longrightarrow>
     read_states STATES nm us = Inr (replicate (length us) True)"
  by (induction us) (simp_all add: get_state_def)

lemma states_are_all_same:
  assumes "STATES (code (model med)) = Some nm"
    and "STATES (code (human med)) = Some nm"
    and "STATES (code (nature med)) = Some nm"
  shows "states_are STATES med nm ''all'' = Inr True"
proof -
  have "\<forall>u \<in> set (users med). STATES (code u) = Some nm"
    using assms by (simp add: users_def)
  then have "read_states STATES nm (users med) = Inr (replicate (length (users med)) True)"
    by (rule read_states_same)
  then show ?thesis
    by (simp add: states_are_def users_def)
qed

text \<open>
  C1. One lifecycle state is shared by model, human and nature: for a code \<open>c\<close> of
  \<open>STATES\<close>, \<open>_change_state(c)\<close> leaves all three with the code \<open>c\<close> and returns \<open>True\<close>;
  for a code outside \<open>STATES\<close> it raises \<open>ValueError\<close> and the mediator, with its three
  users, is as before; and where \<open>STATES\<close> has the code 0 (named \<open>new\<close>), construction
  succeeds and leaves all three with the code 0, reading as that name.
\<close>

theorem change_state_shared:
  "(STATES c = Some nm \<longrightarrow>
      (\<exists>med'. change_state STATES c med = (Inr True, med') \<and>
         code (model med') = c \<and> code (human med') = c \<and> code (nature med') = c)) \<and>
   (STATES c = None \<longrightarrow> change_state STATES c med = (Inl ValueError, med)) \<and>
   (STATES 0 = Some ''new'' \<longrightarrow>
      (\<exists>med'. MainMediator_init STATES m h n = Inr med' \<and>
         map code (users med') = [0, 0, 0] \<and>
         map (get_state STATES) (users med') = [Inr ''new'', Inr ''new'', Inr ''new'']))"
proof (intro conjI impI)
  assume c: "STATES c = Some nm"
  define med' where "med' = med\<lparr>model := set_state c (model med),
    human := set_state c (human med), nature := set_state c (nature med)\<rparr>"
  have "states_are STATES med' nm ''all'' = Inr True"
    by (rule states_are_all_same) (simp_all add: med'_def set_state_def c)
  then have "change_state STATES c med = (Inr True, med')"
    by (simp add: change_state_def c med'_def Let_def)
  moreover have "code (model med') = c" "code (human med') = c" "code (nature med') = c"
    by (simp_all add: med'_def set_state_def)
  ultimately show "\<exists>med'. change_state STATES c med = (Inr True, med') \<and>
      code (model med') = c \<and> code (human med') = c \<and> code (nature med') = c"
    by (intro exI [of _ med'] conjI)
next
  assume "STATES c = None"
  then show "change_state STATES c med = (Inl ValueError, med)"
    by (simp add: change_state_def)
next
  assume z: "STATES 0 = Some ''new''"
  define med0 where "med0 = \<lparr>model = m, human = h, nature = n, sender = None\<rparr>"
  define med' where "med' = med0\<lparr>model := set_state 0 (model med0),
    human := set_state 0 (human med0), nature := set_state 0 (nature med0)\<rparr>"
  have "states_are STATES med' ''new'' ''all'' = Inr True"
    by (rule states_are_all_same) (simp_all add: med'_def set_state_def z)
  then have "change_state STATES 0 med0 = (Inr True, med')"
    by (simp add: change_state_def z med'_def Let_def)
  then have "MainMediator_init STATES m h n = Inr med'"
    by (simp add: MainMediator_init_def med0_def)
  moreover have "map code (users med') = [0, 0, 0]"
    by (simp add: users_def med'_def set_state_def)
  moreover have "map (get_state STATES) (users med') = [Inr ''new'', Inr ''new'', Inr ''new'']"
    by (simp add: users_def med'_def set_state_def get_state_def z)
  ultimately show "\<exists>med'. MainMediator_init STATES m h n = Inr med' \<and>
      map code (users med') = [0, 0, 0] \<and>
      map (get_state STATES) (users med') = [Inr ''new'', Inr ''new'', Inr ''new'']"
    by (intro exI [of _ med'] conjI)
qed


theorem change_state_shared_witness:
  "STATES_sample 2 = Some ''ready'' \<and>
   (\<exists>med'. change_state STATES_sample 2 med_sample = (Inr True, med') \<and>
      code (model med') = 2 \<and> code (human med') = 2 \<and> code (nature med') = 2) \<and>
   STATES_sample 7 = None \<and>
   change_state STATES_sample 7 med_sample = (Inl ValueError, med_sample) \<and>
   STATES_sample 0 = Some ''new'' \<and>
   (\<exists>med'. MainMediator_init STATES_sample (model med_sample) (human med_sample)
        (nature med_sample) = Inr med' \<and>
      map code (users med') = [0, 0, 0] \<and>
      map (get_state STATES_sample) (users med') = [Inr ''new'', Inr ''new'', Inr ''new''])"
proof -
  have a: "STATES_sample 2 = Some ''ready''"
    and b: "STATES_sample 7 = None"
    and c: "STATES_sample 0 = Some ''new''"
    by (simp_all add: STATES_sample_def)
  note t2 = change_state_shared [of STATES_sample 2 "''ready''" med_sample
      "model med_sample" "human med_sample" "nature med_sample"]
  note t7 = change_state_shared [of STATES_sample 7 "''ready''" med_sample
      "model med_sample" "human med_sample" "nature med_sample"]
  from t2 a have 1: "\<exists>med'. change_state STATES_sample 2 med_sample = (Inr True, med') \<and>
      code (model med') = 2 \<and> code (human med') = 2 \<and> code (nature med') = 2"
    by (elim conjE) simp
  from t7 b have 2: "change_state STATES_sample 7 med_sample = (Inl ValueError, med_sample)"
    by (elim conjE) simp
  from t2 c have 3: "\<exists>med'. MainMediator_init STATES_sample (model med_sample)
        (human med_sample) (nature med_sample) = Inr med' \<and>
      map code (users med') = [0, 0, 0] \<and>
      map (get_state STATES_sample) (users med') = [Inr ''new'', Inr ''new'', Inr ''new'']"
    by (elim conjE) simp
  from a b c 1 2 3 show ?thesis
    by (intro conjI)
qed

text \<open>
  C5. Request routing: \<open>transfer_request\<close> raises \<open>TypeError\<close> exactly when the sender is
  neither the bound model, the bound human, the bound nature nor an \<open>Actor\<close>; for an
  \<open>Actor\<close> or the bound human it returns what \<open>nature.get_patch(attr, ...)\<close> gives, for
  the bound model or the bound nature it returns \<open>None\<close>.
\<close>

theorem transfer_request_routing:
  "(fst (transfer_request get_patch med obj attr kwargs) = Inl TypeError \<longleftrightarrow>
      \<not> (is_model med obj \<or> is_human med obj \<or> is_nature med obj \<or> isinstance_Actor obj)) \<and>
   (isinstance_Actor obj \<or> is_human med obj \<longrightarrow>
      fst (transfer_request get_patch med obj attr kwargs) =
        Inr (Some (get_patch (nature med) attr kwargs))) \<and>
   (is_model med obj \<or> is_nature med obj \<longrightarrow>
      fst (transfer_request get_patch med obj attr kwargs) = Inr None)"
  by (cases obj)
    (simp_all add: transfer_request_def check_sender_def sender_matches_def
      is_model_def is_human_def is_nature_def)

theorem transfer_request_routing_witness:
  "isinstance_Actor (Actor 7) \<and>
   fst (transfer_request (\<lambda>n a k. (a, k)) med_sample (Actor 7) ''elevation'' ()) =
     Inr (Some (''elevation'', ())) \<and>
   is_human med_sample (BaseHuman 1) \<and>
   fst (transfer_request (\<lambda>n a k. (a, k)) med_sample (BaseHuman 1) ''elevation'' ()) =
     Inr (Some (''elevation'', ())) \<and>
   is_model med_sample (MainModel 0) \<and>
   fst (transfer_request (\<lambda>n a k. (a, k)) med_sample (MainModel 0) ''elevation'' ()) =
     Inr None \<and>
   is_nature med_sample (BaseNature 2) \<and>
   fst (transfer_request (\<lambda>n a k. (a, k)) med_sample (BaseNature 2) ''elevation'' ()) =
     Inr None \<and>
   fst (transfer_request (\<lambda>n a k. (a, k)) med_sample (BaseHuman 5) ''elevation'' ()) =
     Inl TypeError"
proof -
  have a: "isinstance_Actor (Actor 7)"
    and h: "is_human med_sample (BaseHuman 1)"
    and m: "is_model med_sample (MainModel 0)"
    and n: "is_nature med_sample (BaseNature 2)"
    and o: "\<not> (is_model med_sample (BaseHuman 5) \<or> is_human med_sample (BaseHuman 5) \<or>
        is_nature med_sample (BaseHuman 5) \<or> isinstance_Actor (BaseHuman 5))"
    by (simp_all add: is_human_def is_model_def is_nature_def med_sample_def)
  note t = transfer_request_routing [of "\<lambda>n a k. (a, k)" med_sample _ "''elevation''" "()"]
  from t [of "Actor 7"] a
  have 1: "fst (transfer_request (\<lambda>n a k. (a, k)) med_sample (Actor 7) ''elevation'' ()) =
      Inr (Some (''elevation'', ()))"
    by blast
  from t [of "BaseHuman 1"] h
  have 2: "fst (transfer_request (\<lambda>n a k. (a, k)) med_sample (BaseHuman 1) ''elevation'' ()) =
      Inr (Some (''elevation'', ()))"
    by blast
  from t [of "MainModel 0"] m
  have 3: "fst (transfer_request (\<lambda>n a k. (a, k)) med_sample (MainModel 0) ''elevation'' ()) =
      Inr None"
    by blast
  from t [of "BaseNature 2"] n
  have 4: "fst (transfer_request (\<lambda>n a k. (a, k)) med_sample (BaseNature 2) ''elevation'' ()) =
      Inr None"
    by blast
  from t [of "BaseHuman 5"] o
  have 5: "fst (transfer_request (\<lambda>n a k. (a, k)) med_sample (BaseHuman 5) ''elevation'' ()) =
      Inl TypeError"
    by blast
  from a h m n 1 2 3 4 5 show ?thesis
    by (intro conjI)
qed

section \<open>Properties of the human module\<close>

text \<open>
  C10. Pairwise interaction: \<open>arena(a1, a2, f)\<close> calls \<open>trigger\<close> once on each group with
  the other group as argument, first \<open>a1\<close> toward \<open>a2\<close>, then \<open>a2\<close> toward \<open>a1\<close>, and makes
  no other call: where the first call returns, the trace grows by exactly these two calls
  in this order, and \<open>arena\<close> raises what the second raises, if it does.
\<close>

theorem arena_triggers_both:
  "raises (Trigger a1 f a2) = None \<Longrightarrow>
     arena raises a1 a2 f trace =
       (raises (Trigger a2 f a1), trace @ [Trigger a1 f a2, Trigger a2 f a1])"
  by (simp add: arena_def trigger_def)

theorem arena_triggers_both_witness:
  "(\<lambda>c. None :: error option) (Trigger ''farmers'' ''trade'' ''traders'') = None \<and>
   arena (\<lambda>c. None) ''farmers'' ''traders'' ''trade'' [] =
     (None, [Trigger ''farmers'' ''trade'' ''traders'', Trigger ''traders'' ''trade'' ''farmers''])"
  using arena_triggers_both [of "\<lambda>c. None" "''farmers''" "''trade''" "''traders''" "[]"]
  by simp

text \<open>
  C6. Saved selections, as the code has them: for a non-empty name that does not begin
  with an underscore and that the ordinary attribute lookup does not find on the module
  (not \<open>agents\<close>, \<open>actors\<close>, \<open>define\<close>, \<open>arena\<close>, \<open>require\<close>, nor a name of the base class),
  and for a selection on which \<open>select\<close> returns, \<open>define(name, sel)\<close> returns
  \<open>actors.select(sel)\<close> and stores \<open>sel\<close> under \<open>name\<close>; from then on, reading the attribute
  \<open>name\<close> gives \<open>select(sel)\<close> evaluated over the actors the module has at that moment.
\<close>

theorem define_then_read:
  assumes "name \<noteq> []" and "hd name \<noteq> CHR ''_''"
    and "name \<notin> set class_attributes" and "\<not> inherited name"
    and "select (actors M) sel = Inr selected"
  shows "\<exists>M'. define_selection select name sel M = (Inr selected, M') \<and>
      collections M' name = Some sel \<and>
      (\<forall>others. read_attribute inherited select (M'\<lparr>agents := others\<rparr>) name =
         (case select others sel of Inl e \<Rightarrow> Inl e | Inr r \<Rightarrow> Inr (Selected r)))"
proof -
  define M' where "M' = M\<lparr>collections := (collections M)(name \<mapsto> sel)\<rparr>"
  obtain c cs where name: "name = c # cs" and c: "c \<noteq> CHR ''_''"
    using assms(1,2) by (cases name) auto
  have d: "define_selection select name sel M = (Inr selected, M')"
    using assms(5) by (simp add: define_selection_def M'_def)
  have s: "collections M' name = Some sel"
    by (simp add: M'_def)
  have n1: "name \<noteq> ''agents''" "name \<noteq> ''actors''"
    using assms(3) by (auto simp: class_attributes_def)
  have n2: "name \<notin> set instance_attributes"
    using name c by (auto simp: instance_attributes_def)
  have r: "read_attribute inherited select (M'\<lparr>agents := others\<rparr>) name =
      (case select others sel of Inl e \<Rightarrow> Inl e | Inr r \<Rightarrow> Inr (Selected r))" for others
  proof -
    have "read_attribute inherited select (M'\<lparr>agents := others\<rparr>) name =
        getattr_hook select (M'\<lparr>agents := others\<rparr>) name"
      using n1 n2 assms(3,4) by (simp add: read_attribute_def)
    also have "\<dots> = (case select others sel of Inl e \<Rightarrow> Inl e | Inr r \<Rightarrow> Inr (Selected r))"
      using c s by (simp add: getattr_hook_def name actors_def M'_def)
    finally show ?thesis .
  qed
  from d s r show ?thesis
    by (intro exI [of _ M'] conjI allI)
qed

theorem define_then_read_witness:
  "''young'' \<noteq> [] \<and> hd ''young'' \<noteq> CHR ''_'' \<and> ''young'' \<notin> set class_attributes \<and>
   select_below (actors human_sample) 3 = Inr [1, 2] \<and>
   (\<exists>M'. define_selection select_below ''young'' 3 human_sample = (Inr [1, 2], M') \<and>
      collections M' ''young'' = Some 3 \<and>
      (\<forall>others. read_attribute (\<lambda>n. False) select_below (M'\<lparr>agents := others\<rparr>) ''young'' =
         (case select_below others 3 of Inl e \<Rightarrow> Inl e | Inr r \<Rightarrow> Inr (Selected r))))"
proof -
  have a: "''young'' \<noteq> []" and b: "hd ''young'' \<noteq> CHR ''_''"
    and c: "''young'' \<notin> set class_attributes"
    and e: "select_below (actors human_sample) 3 = Inr [1, 2]"
    by (simp_all add: class_attributes_def select_below_def actors_def human_sample_def)
  note t = define_then_read [of "''young''" "\<lambda>n. False" select_below human_sample 3 "[1, 2]"]
  from a b c e t [OF a b c _ e] show ?thesis
    by simp
qed

text \<open>
  The claim as the specification states it, for every name that does not begin with an
  underscore, fails for a name the class defines: after \<open>define("actors", sel)\<close>, reading
  \<open>actors\<close> is the property, all the actors, not the selected ones.
\<close>

theorem define_then_read_counterexample:
  "hd ''actors'' \<noteq> CHR ''_'' \<and>
   fst (define_selection select_below ''actors'' 2 human_sample) = Inr [1] \<and>
   collections (snd (define_selection select_below ''actors'' 2 human_sample)) ''actors'' = Some 2 \<and>
   read_attribute (\<lambda>n. False) select_below
     (snd (define_selection select_below ''actors'' 2 human_sample)) ''actors'' =
     Inr (ActorsList [1, 2, 3]) \<and>
   read_attribute (\<lambda>n. False) select_below
     (snd (define_selection select_below ''actors'' 2 human_sample)) ''actors'' \<noteq>
     Inr (Selected [1])"
  by (simp add: define_selection_def select_below_def human_sample_def actors_def
      read_attribute_def)

section \<open>Properties of the random helper\<close>

lemma length_combinations2:
  "length (combinations2 xs) = length xs * (length xs - 1) div 2"
proof (induction xs)
  case Nil
  then show ?case by simp
next
  case (Cons x xs)
  have "length xs + length xs * (length xs - 1) div 2 = (length xs + 1) * length xs div 2"
  proof (cases "length xs")
    case 0
    then show ?thesis by simp
  next
    case (Suc m)
    have "Suc m + Suc m * m div 2 = (2 * Suc m + Suc m * m) div 2" by simp
    also have "2 * Suc m + Suc m * m = (Suc m + 1) * Suc m" by simp
    finally show ?thesis using Suc by simp
  qed
  with Cons show ?case by simp
qed

lemma set_combinations2:
  "set (combinations2 xs) = {(xs ! i, xs ! j) | i j. i < j \<and> j < length xs}"
proof (induction xs)
  case Nil
  then show ?case by simp
next
  case (Cons x xs)
  have "{((x # xs) ! i, (x # xs) ! j) | i j. i < j \<and> j < length (x # xs)} =
      {(x, xs ! j) | j. j < length xs} \<union> {(xs ! i, xs ! j) | i j. i < j \<and> j < length xs}"
    (is "?L = ?A \<union> ?B")
  proof (intro set_eqI iffI)
    fix q assume "q \<in> ?L"
    then obtain i j where q: "q = ((x # xs) ! i, (x # xs) ! j)"
      and ij: "i < j" "j < length (x # xs)"
      by blast
    from ij obtain j' where j': "j = Suc j'" by (cases j) auto
    show "q \<in> ?A \<union> ?B"
    proof (cases i)
      case 0
      then show ?thesis using q ij j' by auto
    next
      case (Suc i')
      then have "q = (xs ! i', xs ! j')" "i' < j'" "j' < length xs" using q ij j' by auto
      then show ?thesis by blast
    qed
  next
    fix q assume "q \<in> ?A \<union> ?B"
    then show "q \<in> ?L"
    proof
      assume "q \<in> ?A"
      then obtain j where "q = (x, xs ! j)" "j < length xs" by blast
      then have "q = ((x # xs) ! 0, (x # xs) ! Suc j)" "0 < Suc j" "Suc j < length (x # xs)"
        by auto
      then show ?thesis by blast
    next
      assume "q \<in> ?B"
      then obtain i j where "q = (xs ! i, xs ! j)" "i < j" "j < length xs" by blast
      then have "q = ((x # xs) ! Suc i, (x # xs) ! Suc j)" "Suc i < Suc j"
        "Suc j < length (x # xs)"
        by auto
      then show ?thesis by blast
    qed
  qed
  moreover have "set (map (Pair x) xs) = {(x, xs ! j) | j. j < length xs}"
    by (auto simp: in_set_conv_nth image_iff)
  ultimately show ?case using Cons by simp
qed

lemma distinct_combinations2: "distinct xs \<Longrightarrow> distinct (combinations2 xs)"
proof (induction xs)
  case Nil
  then show ?case by simp
next
  case (Cons x xs)
  have "set (combinations2 xs) \<subseteq> set xs \<times> set xs"
    by (auto simp: set_combinations2)
  with Cons show ?case
    by (auto simp: distinct_map inj_on_def)
qed

lemma link_loop_all:
  "\<forall>k. draws k < p \<Longrightarrow> \<forall>c. raises c = None \<Longrightarrow>
     link_loop draws raises lnk p pairs k acc trace =
       (Inr (acc @ pairs), trace @ map (\<lambda>(a, b). LinkTo a b lnk True) pairs)"
  by (induction pairs arbitrary: k acc trace) auto

lemma link_loop_subseq:
  "fst (link_loop draws raises lnk p pairs k acc trace) = Inr res \<Longrightarrow>
     \<exists>ys. res = acc @ ys \<and> subseq ys pairs"
proof (induction pairs arbitrary: k acc trace)
  case Nil
  then show ?case by simp
next
  case (Cons pr pairs)
  obtain a b where pr: "pr = (a, b)" by (cases pr)
  show ?case
  proof (cases "draws k < p")
    case True
    show ?thesis
    proof (cases "raises (LinkTo a b lnk True)")
      case None
      with True Cons.prems pr
      have "fst (link_loop draws raises lnk p pairs (Suc k) (acc @ [(a, b)])
          (trace @ [LinkTo a b lnk True])) = Inr res" by simp
      from Cons.IH [OF this] obtain ys where "res = (acc @ [(a, b)]) @ ys" "subseq ys pairs"
        by blast
      then have "res = acc @ ((a, b) # ys)" "subseq ((a, b) # ys) (pr # pairs)"
        using pr by auto
      then show ?thesis by blast
    next
      case (Some e)
      with True Cons.prems pr show ?thesis by simp
    qed
  next
    case False
    with Cons.prems pr
    have "fst (link_loop draws raises lnk p pairs (Suc k) acc trace) = Inr res" by simp
    from Cons.IH [OF this] obtain ys where ys: "res = acc @ ys" "subseq ys pairs" by blast
    then have "subseq ys (pr # pairs)" by auto
    with ys(1) show ?thesis by blast
  qed
qed

text \<open>
  C9. Random linking. With \<open>p = 1.0\<close> (every draw of \<open>np.random.random()\<close> lies below 1) and
  no \<open>link_to\<close> raising, \<open>link\<close> calls \<open>link_to\<close> with \<open>mutual=True\<close> for every pair of
  \<open>combinations(actors, 2)\<close>, in that order, and returns exactly these pairs; they are the
  pairs of the actors at positions \<open>i < j\<close>, \<open>n * (n - 1) / 2\<close> of them, each once when the
  actors are distinct. For every \<open>p\<close>, the pairs returned are a subsequence of the
  combinations.
\<close>

theorem link_pairs:
  "((\<forall>k. draws k < 1) \<and> (\<forall>c. raises c = None) \<longrightarrow>
      link draws raises actors_list lnk 1 trace =
        (Inr (combinations2 actors_list),
         trace @ map (\<lambda>(a, b). LinkTo a b lnk True) (combinations2 actors_list))) \<and>
   length (combinations2 actors_list) = length actors_list * (length actors_list - 1) div 2 \<and>
   set (combinations2 actors_list) =
     {(actors_list ! i, actors_list ! j) | i j. i < j \<and> j < length actors_list} \<and>
   (distinct actors_list \<longrightarrow> distinct (combinations2 actors_list)) \<and>
   (\<forall>res. fst (link draws raises actors_list lnk p trace) = Inr res \<longrightarrow>
      subseq res (combinations2 actors_list))"
proof (intro conjI impI allI)
  assume "(\<forall>k. draws k < 1) \<and> (\<forall>c. raises c = None)"
  then show "link draws raises actors_list lnk 1 trace =
      (Inr (combinations2 actors_list),
       trace @ map (\<lambda>(a, b). LinkTo a b lnk True) (combinations2 actors_list))"
    by (simp add: link_def link_loop_all)
next
  show "length (combinations2 actors_list) = length actors_list * (length actors_list - 1) div 2"
    by (rule length_combinations2)
next
  show "set (combinations2 actors_list) =
      {(actors_list ! i, actors_list ! j) | i j. i < j \<and> j < length actors_list}"
    by (rule set_combinations2)
next
  assume "distinct actors_list"
  then show "distinct (combinations2 actors_list)"
    by (rule distinct_combinations2)
next
  fix res
  assume "fst (link draws raises actors_list lnk p trace) = Inr res"
  then have "\<exists>ys. res = [] @ ys \<and> subseq ys (combinations2 actors_list)"
    unfolding link_def by (rule link_loop_subseq)
  then show "subseq res (combinations2 actors_list)"
    by simp
qed

theorem link_pairs_witness:
  "(\<forall>k. (\<lambda>k. 1 / 2 :: real) k < 1) \<and>
   link (\<lambda>k. 1 / 2) (\<lambda>c. None) [1, 2, 3 :: nat] ''friend'' 1 [] =
     (Inr [(1, 2), (1, 3), (2, 3)],
      [LinkTo 1 2 ''friend'' True, LinkTo 1 3 ''friend'' True, LinkTo 2 3 ''friend'' True]) \<and>
   length (combinations2 [1, 2, 3 :: nat]) = 3 \<and>
   distinct [1, 2, 3 :: nat] \<and>
   distinct (combinations2 [1, 2, 3 :: nat]) \<and>
   fst (link (\<lambda>k. real k / 2) (\<lambda>c. None) [1, 2, 3 :: nat] ''friend'' (3 / 4) []) =
     Inr [(1, 2), (1, 3)] \<and>
   subseq [(1, 2), (1, 3)] (combinations2 [1, 2, 3 :: nat])"
proof -
  note t = link_pairs [of "\<lambda>k. 1 / 2" "\<lambda>c. None" "[1, 2, 3 :: nat]" "''friend''" "[]"]
  note u = link_pairs [of "\<lambda>k. real k / 2" "\<lambda>c. None" "[1, 2, 3 :: nat]" "''friend''" "[]"
      "3 / 4"]
  have a: "\<forall>k. (\<lambda>k. 1 / 2 :: real) k < 1"
    and d: "distinct [1, 2, 3 :: nat]"
    by simp_all
  have e: "fst (link (\<lambda>k. real k / 2) (\<lambda>c. None) [1, 2, 3 :: nat] ''friend'' (3 / 4) []) =
      Inr [(1, 2), (1, 3)]"
    by (simp add: link_def)
  from t a have 1: "link (\<lambda>k. 1 / 2) (\<lambda>c. None) [1, 2, 3 :: nat] ''friend'' 1 [] =
     (Inr [(1, 2), (1, 3), (2, 3)],
      [LinkTo 1 2 ''friend'' True, LinkTo 1 3 ''friend'' True, LinkTo 2 3 ''friend'' True])"
    by simp
  from t have 2: "length (combinations2 [1, 2, 3 :: nat]) = 3"
    by simp
  from t d have 3: "distinct (combinations2 [1, 2, 3 :: nat])"
    by blast
  from u e have 4: "subseq [(1, 2), (1, 3)] (combinations2 [1, 2, 3 :: nat])"
    by blast
  from a 1 2 d 3 e 4 show ?thesis
    by (intro conjI)
qed

text \<open>
  C7. The errors of \<open>choice\<close>, as the code has them. On an empty actors list it raises
  \<open>ABSESpyError\<close>, whatever the arguments. On a non-empty list with \<open>replace=False\<close> it
  raises \<open>ABSESpyError\<close> when \<open>size\<close> exceeds the number of actors and, unless cleaning the
  probabilities or the generator raises that error, only then. Otherwise a negative
  \<open>size\<close> is the generator's \<open>ValueError\<close>; and for a \<open>size\<close> from 0 to the number of actors,
  when the generator returns \<open>size\<close> actors, \<open>choice\<close> returns the first of them if
  \<open>size = 1\<close> and \<open>as_list\<close> is false, and an \<open>ActorsList\<close> of them otherwise.
\<close>

theorem choice_outcomes:
  "choice draw clean_p [] sz prob replace as_list = Inl ABSESpyError \<and>
   (actors_list \<noteq> [] \<and> int (length actors_list) < sz \<longrightarrow>
      choice draw clean_p actors_list sz prob False as_list = Inl ABSESpyError) \<and>
   (actors_list \<noteq> [] \<and> clean_prob clean_p prob \<noteq> Inl ABSESpyError \<and>
    (\<forall>q. draw actors_list sz False q \<noteq> Inl ABSESpyError) \<longrightarrow>
      (choice draw clean_p actors_list sz prob False as_list = Inl ABSESpyError \<longleftrightarrow>
         int (length actors_list) < sz)) \<and>
   (actors_list \<noteq> [] \<and> sz < 0 \<and> clean_prob clean_p prob = Inr q \<longrightarrow>
      choice draw clean_p actors_list sz prob False as_list = Inl ValueError) \<and>
   (actors_list \<noteq> [] \<and> 0 \<le> sz \<and> sz \<le> int (length actors_list) \<and>
    clean_prob clean_p prob = Inr q \<and> draw actors_list sz False q = Inr chosen \<and>
    int (length chosen) = sz \<longrightarrow>
      choice draw clean_p actors_list sz prob False as_list =
        Inr (if sz = 1 \<and> \<not> as_list then OneActor (chosen ! 0) else ManyActors chosen))"
proof (intro conjI impI)
  show "choice draw clean_p [] sz prob replace as_list = Inl ABSESpyError"
    by (simp add: choice_def)
next
  assume "actors_list \<noteq> [] \<and> int (length actors_list) < sz"
  then show "choice draw clean_p actors_list sz prob False as_list = Inl ABSESpyError"
    by (simp add: choice_def)
next
  assume a: "actors_list \<noteq> [] \<and> clean_prob clean_p prob \<noteq> Inl ABSESpyError \<and>
    (\<forall>q. draw actors_list sz False q \<noteq> Inl ABSESpyError)"
  show "choice draw clean_p actors_list sz prob False as_list = Inl ABSESpyError \<longleftrightarrow>
      int (length actors_list) < sz"
  proof
    assume r: "choice draw clean_p actors_list sz prob False as_list = Inl ABSESpyError"
    show "int (length actors_list) < sz"
    proof (rule ccontr)
      assume n: "\<not> int (length actors_list) < sz"
      from a obtain e where "clean_prob clean_p prob = Inl e \<and> e \<noteq> ABSESpyError \<or>
          (\<exists>q. clean_prob clean_p prob = Inr q)"
        by (cases "clean_prob clean_p prob") auto
      with a n r show False
        by (auto simp: choice_def generator_choice_def
            split: sum.splits list.splits if_splits)
    qed
  next
    assume "int (length actors_list) < sz"
    with a show "choice draw clean_p actors_list sz prob False as_list = Inl ABSESpyError"
      by (simp add: choice_def)
  qed
next
  assume "actors_list \<noteq> [] \<and> sz < 0 \<and> clean_prob clean_p prob = Inr q"
  then show "choice draw clean_p actors_list sz prob False as_list = Inl ValueError"
    by (simp add: choice_def generator_choice_def)
next
  assume a: "actors_list \<noteq> [] \<and> 0 \<le> sz \<and> sz \<le> int (length actors_list) \<and>
    clean_prob clean_p prob = Inr q \<and> draw actors_list sz False q = Inr chosen \<and>
    int (length chosen) = sz"
  show "choice draw clean_p actors_list sz prob False as_list =
      Inr (if sz = 1 \<and> \<not> as_list then OneActor (chosen ! 0) else ManyActors chosen)"
  proof (cases chosen)
    case Nil
    with a show ?thesis
      by (auto simp: choice_def generator_choice_def)
  next
    case (Cons c cs)
    with a show ?thesis
      by (auto simp: choice_def generator_choice_def)
  qed
qed

theorem choice_outcomes_witness:
  "choice draw_first clean_accept ([] :: nat list) 1 None True False = Inl ABSESpyError \<and>
   choice draw_first clean_accept [4, 5 :: nat] 3 None False False = Inl ABSESpyError \<and>
   choice draw_first clean_accept [4, 5 :: nat] (- 1) None False False = Inl ValueError \<and>
   choice draw_first clean_accept [4, 5 :: nat] 1 None False False = Inr (OneActor 4) \<and>
   choice draw_first clean_accept [4, 5 :: nat] 1 None False True = Inr (ManyActors [4]) \<and>
   choice draw_first clean_accept [4, 5 :: nat] 2 (Some ()) False False =
     Inr (ManyActors [4, 5]) \<and>
   choice draw_first clean_accept [4, 5 :: nat] 2 (Some ()) False False \<noteq> Inl ABSESpyError"
proof -
  note t = choice_outcomes [of draw_first clean_accept _ _ _ _ "[4, 5 :: nat]"]
  have n: "clean_prob clean_accept None = Inr None"
    and s: "clean_prob clean_accept (Some ()) = Inr (Some ())"
    by (simp_all add: clean_prob_def clean_accept_def)
  have 1: "choice draw_first clean_accept ([] :: nat list) 1 None True False = Inl ABSESpyError"
    using choice_outcomes [of draw_first clean_accept 1 None True False "[]"] by blast
  have 2: "choice draw_first clean_accept [4, 5 :: nat] 3 None False False = Inl ABSESpyError"
    using t [of 3 None True False] by simp
  have 3: "choice draw_first clean_accept [4, 5 :: nat] (- 1) None False False = Inl ValueError"
    using t [of "- 1" None True False None] n by simp
  have 4: "choice draw_first clean_accept [4, 5 :: nat] 1 None False False = Inr (OneActor 4)"
    using t [of 1 None True False None "[4]"] n by (simp add: draw_first_def)
  have 5: "choice draw_first clean_accept [4, 5 :: nat] 1 None False True = Inr (ManyActors [4])"
    using t [of 1 None True True None "[4]"] n by (simp add: draw_first_def)
  have 6: "choice draw_first clean_accept [4, 5 :: nat] 2 (Some ()) False False =
      Inr (ManyActors [4, 5])"
    using t [of 2 "Some ()" True False "Some ()" "[4, 5]"] s by (simp add: draw_first_def)
  have 7: "choice draw_first clean_accept [4, 5 :: nat] 2 (Some ()) False False \<noteq>
      Inl ABSESpyError"
    using t [of 2 "Some ()" True False] s by (simp add: draw_first_def)
  from 1 2 3 4 5 6 7 show ?thesis
    by (intro conjI)
qed

text \<open>
  The claim as the specification states it promises \<open>size\<close> chosen actors whenever
  \<open>size\<close> does not exceed the number of actors. A negative \<open>size\<close> does not exceed it, and
  the generator's \<open>ValueError\<close> comes out instead.
\<close>

theorem choice_outcomes_counterexample:
  "\<not> int (length [4, 5 :: nat]) < - 1 \<and>
   choice draw_first clean_accept [4, 5 :: nat] (- 1) None False False = Inl ValueError"
  by (simp add: choice_def clean_prob_def generator_choice_def)

section \<open>Properties of the layer\<close>

subsection \<open>Neighbourhoods\<close>

lemma neighborhood_step_eq:
  "neighborhood_step L (x, y) moore ic r (dy, dx) A =
     (if (ic \<or> dx \<noteq> 0 \<or> dy \<noteq> 0) \<and> (moore \<or> \<bar>dx\<bar> + \<bar>dy\<bar> \<le> r) \<and>
         \<not> out_of_bounds L (x + dx, y + dy)
      then insert (x + dx, y + dy) A else A)"
  by (auto simp: neighborhood_step_def Let_def)

lemma fold_neighborhood_step:
  "fold (neighborhood_step L (x, y) moore ic r) ds A =
     A \<union> {(x + dx, y + dy) | dx dy. (dy, dx) \<in> set ds \<and>
       (ic \<or> dx \<noteq> 0 \<or> dy \<noteq> 0) \<and> (moore \<or> \<bar>dx\<bar> + \<bar>dy\<bar> \<le> r) \<and>
       \<not> out_of_bounds L (x + dx, y + dy)}"
proof (induction ds arbitrary: A)
  case Nil
  then show ?case by simp
next
  case (Cons d ds)
  obtain dy dx where d: "d = (dy, dx)" by (cases d)
  show ?case
    unfolding d fold_simps Cons.IH neighborhood_step_eq
    by auto
qed

lemma finite_fold_neighborhood_step:
  "finite A \<Longrightarrow> finite (fold (neighborhood_step L xy moore ic r) ds A)"
proof (induction ds arbitrary: A)
  case Nil
  then show ?case by simp
next
  case (Cons d ds)
  obtain dy dx x y where "d = (dy, dx)" "xy = (x, y)" by (cases d, cases xy) auto
  with Cons show ?case by (simp add: neighborhood_step_eq)
qed

lemma set_get_neighborhood:
  "set (get_neighborhood L (x, y) moore ic r) =
     {(x + dx, y + dy) | dx dy. \<bar>dx\<bar> \<le> r \<and> \<bar>dy\<bar> \<le> r \<and>
       (ic \<or> dx \<noteq> 0 \<or> dy \<noteq> 0) \<and> (moore \<or> \<bar>dx\<bar> + \<bar>dy\<bar> \<le> r) \<and>
       \<not> out_of_bounds L (x + dx, y + dy)}"
proof -
  have "finite (fold (neighborhood_step L (x, y) moore ic r)
      (List.product [- r..r] [- r..r]) {})"
    by (rule finite_fold_neighborhood_step) simp
  then have "set (get_neighborhood L (x, y) moore ic r) =
      fold (neighborhood_step L (x, y) moore ic r) (List.product [- r..r] [- r..r]) {}"
    by (simp add: get_neighborhood_def)
  also have "\<dots> = {(x + dx, y + dy) | dx dy. \<bar>dx\<bar> \<le> r \<and> \<bar>dy\<bar> \<le> r \<and>
       (ic \<or> dx \<noteq> 0 \<or> dy \<noteq> 0) \<and> (moore \<or> \<bar>dx\<bar> + \<bar>dy\<bar> \<le> r) \<and>
       \<not> out_of_bounds L (x + dx, y + dy)}"
    unfolding fold_neighborhood_step by (auto simp: abs_le_iff)
  finally show ?thesis .
qed

text \<open>
  C3. Neighbourhood query: \<open>get_neighborhood((x, y), moore, include_center, radius)\<close>
  returns exactly the in-bounds coordinates \<open>(x + dx, y + dy)\<close> with \<open>|dx| \<le> radius\<close> and
  \<open>|dy| \<le> radius\<close> (and \<open>|dx| + |dy| \<le> radius\<close> when \<open>moore\<close> is false), without \<open>(x, y)\<close>
  itself unless \<open>include_center\<close> is true; the list is sorted and has no duplicates. This
  holds for every position and radius, in particular for an in-bounds position and a
  radius of at least 1.
\<close>

theorem get_neighborhood_exact:
  "set (get_neighborhood L (x, y) moore include_center radius) =
     {(x + dx, y + dy) | dx dy.
        \<bar>dx\<bar> \<le> radius \<and> \<bar>dy\<bar> \<le> radius \<and> (\<not> moore \<longrightarrow> \<bar>dx\<bar> + \<bar>dy\<bar> \<le> radius) \<and>
        (\<not> include_center \<longrightarrow> (dx, dy) \<noteq> (0, 0)) \<and>
        0 \<le> x + dx \<and> x + dx < int (width L) \<and> 0 \<le> y + dy \<and> y + dy < int (height L)} \<and>
   sorted (get_neighborhood L (x, y) moore include_center radius) \<and>
   distinct (get_neighborhood L (x, y) moore include_center radius)"
proof (intro conjI)
  show "set (get_neighborhood L (x, y) moore include_center radius) =
     {(x + dx, y + dy) | dx dy.
        \<bar>dx\<bar> \<le> radius \<and> \<bar>dy\<bar> \<le> radius \<and> (\<not> moore \<longrightarrow> \<bar>dx\<bar> + \<bar>dy\<bar> \<le> radius) \<and>
        (\<not> include_center \<longrightarrow> (dx, dy) \<noteq> (0, 0)) \<and>
        0 \<le> x + dx \<and> x + dx < int (width L) \<and> 0 \<le> y + dy \<and> y + dy < int (height L)}"
    unfolding set_get_neighborhood out_of_bounds_def
    by (intro Collect_cong) auto
next
  show "sorted (get_neighborhood L (x, y) moore include_center radius)"
    by (simp add: get_neighborhood_def)
next
  show "distinct (get_neighborhood L (x, y) moore include_center radius)"
    by (simp add: get_neighborhood_def)
qed

theorem get_neighborhood_exact_witness:
  "get_neighborhood layer_sample (1, 1) False True 1 = [(0, 1), (1, 0), (1, 1), (2, 1)] \<and>
   {(1 + dx, 1 + dy) | dx dy.
      \<bar>dx\<bar> \<le> 1 \<and> \<bar>dy\<bar> \<le> 1 \<and> \<bar>dx\<bar> + \<bar>dy\<bar> \<le> 1 \<and>
      0 \<le> 1 + dx \<and> 1 + dx < int (width layer_sample) \<and>
      0 \<le> 1 + dy \<and> 1 + dy < int (height layer_sample)} =
     {(0, 1), (1, 0), (1, 1), (2 :: int, 1 :: int)} \<and>
   sorted [(0, 1), (1, 0), (1, 1), (2 :: int, 1 :: int)] \<and>
   distinct [(0, 1), (1, 0), (1, 1), (2 :: int, 1 :: int)] \<and>
   get_neighborhood layer_sample (0, 0) True False 1 = [(0, 1), (1, 0), (1, 1)]"
proof -
  have e: "get_neighborhood layer_sample (1, 1) False True 1 = [(0, 1), (1, 0), (1, 1), (2, 1)]"
    by code_simp
  have f: "get_neighborhood layer_sample (0, 0) True False 1 = [(0, 1), (1, 0), (1, 1)]"
    by code_simp
  note t = get_neighborhood_exact [of layer_sample 1 1 False True 1, unfolded e]
  from t have 1: "{(1 + dx, 1 + dy) | dx dy.
      \<bar>dx\<bar> \<le> 1 \<and> \<bar>dy\<bar> \<le> 1 \<and> \<bar>dx\<bar> + \<bar>dy\<bar> \<le> 1 \<and>
      0 \<le> 1 + dx \<and> 1 + dx < int (width layer_sample) \<and>
      0 \<le> 1 + dy \<and> 1 + dy < int (height layer_sample)} =
     {(0, 1), (1, 0), (1, 1), (2 :: int, 1 :: int)}"
    by simp
  from t have 2: "sorted [(0, 1), (1, 0), (1, 1), (2 :: int, 1 :: int)]"
    and 3: "distinct [(0, 1), (1, 0), (1, 1), (2 :: int, 1 :: int)]"
    by blast+
  from e 1 2 3 f show ?thesis
    by (intro conjI)
qed

subsection \<open>The grid\<close>

lemma concat_nth_rect:
  "\<forall>col \<in> set xss. length col = h \<Longrightarrow> x < length xss \<Longrightarrow> y < h \<Longrightarrow>
     concat xss ! (x * h + y) = xss ! x ! y"
proof (induction xss arbitrary: x)
  case Nil
  then show ?case by simp
next
  case (Cons c xss)
  show ?case
  proof (cases x)
    case 0
    with Cons.prems show ?thesis by (simp add: nth_append)
  next
    case (Suc x')
    with Cons.prems have "concat xss ! (x' * h + y) = xss ! x' ! y"
      by (intro Cons.IH) auto
    with Suc Cons.prems show ?thesis by (simp add: nth_append)
  qed
qed

lemma length_concat_rect:
  "\<forall>col \<in> set xss. length col = h \<Longrightarrow> length (concat xss) = length xss * h"
  by (induction xss) auto

lemma init_cells_nth:
  "x < w \<Longrightarrow> y < h \<Longrightarrow>
     cells (PatchModule_init w h props dl dyn t) ! x ! y = new_cell h x y"
  by (simp add: PatchModule_init_def)

lemma wf_layer_init: "wf_layer (PatchModule_init w h props dl dyn t)"
  by (simp add: wf_layer_def PatchModule_init_def list_all_iff)

lemma array_cells_item:
  assumes wf: "wf_layer L" and x: "x < width L" and y: "y < height L"
  shows "item2 (array_cells L) (int (height L) - 1 - int y) (int x) = Inr (cells L ! x ! y)"
proof -
  define w h where "w = width L" and "h = height L"
  have len: "length (cells L) = w" and cols: "\<forall>col \<in> set (cells L). length col = h"
    using wf by (simp_all add: wf_layer_def w_def h_def list_all_iff)
  from x len obtain c cs where cc: "cells L = c # cs"
    by (cases "cells L") (auto simp: w_def)
  have lc: "length c = h" using cols cc by simp
  have A: "np_array (cells L) = \<lparr>shape = [w, h], flat = concat (cells L)\<rparr>"
    using cc len lc by (simp add: np_array_def)
  have lcat: "length (concat (cells L)) = w * h"
    using length_concat_rect [OF cols] len by simp
  let ?T = "np_T (np_array (cells L))"
  have T: "?T = \<lparr>shape = [h, w], flat = map (\<lambda>k. concat (cells L) ! ((k mod w) * h + k div w)) [0..<h * w]\<rparr>"
    by (simp add: np_T_def A)
  have F: "array_cells L = \<lparr>shape = [h, w],
      flat = map (\<lambda>k. flat ?T ! ((h - 1 - k div w) * w + k mod w)) [0..<h * w]\<rparr>"
    by (simp add: array_cells_def np_flipud_def T)
  have xw: "x < w" and yh: "y < h" using x y by (simp_all add: w_def h_def)
  define i where "i = h - 1 - y"
  have ih: "i < h" using yh by (simp add: i_def)
  have k: "i * w + x < h * w"
  proof -
    have "i * w + x < i * w + w" using xw by simp
    also have "\<dots> = (i + 1) * w" by simp
    also have "\<dots> \<le> h * w" using ih by (intro mult_le_mono1) simp
    finally show ?thesis .
  qed
  have dv: "(i * w + x) div w = i" and md: "(i * w + x) mod w = x"
    using xw by simp_all
  have hy: "h - 1 - i = y" using yh by (simp add: i_def)
  have k2: "y * w + x < h * w"
  proof -
    have "y * w + x < y * w + w" using xw by simp
    also have "\<dots> = (y + 1) * w" by simp
    also have "\<dots> \<le> h * w" using yh by (intro mult_le_mono1) simp
    finally show ?thesis .
  qed
  have dv2: "(y * w + x) div w = y" and md2: "(y * w + x) mod w = x"
    using xw by simp_all
  have Fl: "flat (array_cells L) =
      map (\<lambda>k. flat ?T ! ((h - 1 - k div w) * w + k mod w)) [0..<h * w]"
    by (simp add: F)
  have Tl: "flat ?T = map (\<lambda>k. concat (cells L) ! ((k mod w) * h + k div w)) [0..<h * w]"
    by (simp add: T)
  have "flat (array_cells L) ! (i * w + x) =
      flat ?T ! ((h - 1 - (i * w + x) div w) * w + (i * w + x) mod w)"
    unfolding Fl using k by (simp only: nth_map_upt minus_nat.diff_0 add_0)
  also have "\<dots> = flat ?T ! (y * w + x)"
    by (simp only: dv md hy)
  also have "\<dots> = concat (cells L) ! (((y * w + x) mod w) * h + (y * w + x) div w)"
    unfolding Tl using k2 by (simp only: nth_map_upt minus_nat.diff_0 add_0)
  also have "\<dots> = concat (cells L) ! (x * h + y)"
    by (simp only: dv2 md2)
  also have "\<dots> = cells L ! x ! y"
    using concat_nth_rect [OF cols] xw yh len by simp
  finally have v: "flat (array_cells L) ! (i * w + x) = cells L ! x ! y" .
  have ai: "wrap_index h (int (height L) - 1 - int y) = Inr i"
    using yh by (auto simp: wrap_index_def i_def h_def Let_def)
  have ax: "wrap_index w (int x) = Inr x"
    using xw by (simp add: wrap_index_def)
  show ?thesis
    using v ai ax by (simp add: item2_def F h_def[symmetric] w_def[symmetric])
qed

lemma concat_map_product:
  "concat (map (\<lambda>x. map (f x) ys) xs) = map (\<lambda>(x, y). f x y) (List.product xs ys)"
  by (induction xs) simp_all

lemma init_cells_concat:
  "concat (cells (PatchModule_init w h props dl dyn t)) =
     map (\<lambda>(x, y). new_cell h x y) (List.product [0..<w] [0..<h])"
  by (simp add: PatchModule_init_def concat_map_product)

lemma distinct_init_cells:
  "distinct (concat (cells (PatchModule_init w h props dl dyn t)))"
proof -
  have "inj_on (\<lambda>(x, y). new_cell h x y :: 'a cell) (set (List.product [0..<w] [0..<h]))"
    by (auto simp: inj_on_def new_cell_def)
  then show ?thesis
    by (simp add: init_cells_concat distinct_map distinct_product)
qed

text \<open>
  C4. Grid coherence: a layer constructed with width \<open>w\<close> and height \<open>h\<close> holds exactly
  \<open>w * h\<close> cells, all different; for \<open>x < w\<close> and \<open>y < h\<close>, \<open>layer[x, y]\<close> is the cell created
  at \<open>pos = (x, y)\<close>, the only cell with that position, its \<open>indices\<close> are \<open>(h - 1 - y, x)\<close>,
  and \<open>array_cells[h - 1 - y, x]\<close> is that same cell.
\<close>

theorem grid_coherence:
  assumes "L = PatchModule_init w h props dict_len dyn t" and "x < w" and "y < h"
  shows "length (concat (cells L)) = w * h \<and> distinct (concat (cells L)) \<and>
    getitem L (Pair2 (I (int x)) (I (int y))) = Inr (Cell (cells L ! x ! y)) \<and>
    pos (cells L ! x ! y) = (int x, int y) \<and>
    indices (cells L ! x ! y) = (int h - 1 - int y, int x) \<and>
    (\<forall>c \<in> set (concat (cells L)). pos c = (int x, int y) \<longrightarrow> c = cells L ! x ! y) \<and>
    item2 (array_cells L) (int h - 1 - int y) (int x) = Inr (cells L ! x ! y)"
proof (intro conjI)
  have wf: "wf_layer L" and w: "width L = w" and h: "height L = h"
    using assms(1) by (simp_all add: wf_layer_init) (simp_all add: PatchModule_init_def)
  have c: "cells L ! x ! y = new_cell h x y"
    using assms by (simp add: init_cells_nth)
  have lens: "length (cells L) = w" "length (cells L ! x) = h"
    using assms by (simp_all add: PatchModule_init_def)
  show "length (concat (cells L)) = w * h"
    using assms(1) by (simp add: init_cells_concat)
  show "distinct (concat (cells L))"
    using assms(1) by (simp add: distinct_init_cells)
  show "getitem L (Pair2 (I (int x)) (I (int y))) = Inr (Cell (cells L ! x ! y))"
    using assms(2,3) lens by (simp add: py_nth_def wrap_index_def)
  show "pos (cells L ! x ! y) = (int x, int y)"
    by (simp add: c new_cell_def)
  show "indices (cells L ! x ! y) = (int h - 1 - int y, int x)"
    by (simp add: c new_cell_def)
  show "\<forall>c \<in> set (concat (cells L)). pos c = (int x, int y) \<longrightarrow> c = cells L ! x ! y"
  proof (intro ballI impI)
    fix c' :: "'a cell"
    assume "c' \<in> set (concat (cells L))" and p: "pos c' = (int x, int y)"
    then obtain x' y' where "c' = new_cell h x' y'"
      using assms(1) by (auto simp: init_cells_concat)
    with p show "c' = cells L ! x ! y"
      by (simp add: c new_cell_def)
  qed
  show "item2 (array_cells L) (int h - 1 - int y) (int x) = Inr (cells L ! x ! y)"
    using array_cells_item [OF wf, of x y] assms(2,3) w h by simp
qed

theorem grid_coherence_witness:
  "length (concat (cells layer_sample)) = 3 * 2 \<and> distinct (concat (cells layer_sample)) \<and>
   getitem layer_sample (Pair2 (I 2) (I 0)) = Inr (Cell (cells layer_sample ! 2 ! 0)) \<and>
   pos (cells layer_sample ! 2 ! 0) = (2, 0) \<and>
   indices (cells layer_sample ! 2 ! 0) = (1, 2) \<and>
   item2 (array_cells layer_sample) 1 2 = Inr (cells layer_sample ! 2 ! 0)"
proof -
  have a: "layer_sample = PatchModule_init 3 2 [] 0 Map.empty 0"
    by (simp add: layer_sample_def)
  have b: "(2 :: nat) < 3" and c: "(0 :: nat) < 2"
    by simp_all
  from grid_coherence [OF a b c] show ?thesis
    by simp
qed

subsection \<open>Raster data\<close>

lemma item3_error: "item3 A b i j = Inl e \<Longrightarrow> e = IndexError"
  by (auto simp: item3_def wrap_index_def Let_def split: list.splits sum.splits if_splits)

lemma apply_cells_no_ValueError: "apply_cells data a h ps cs \<noteq> Inl ValueError"
proof (induction ps arbitrary: cs)
  case Nil
  then show ?case by simp
next
  case (Cons p ps)
  obtain x y where p: "p = (x, y)" by (cases p)
  show ?case
  proof (cases "item3 data 0 (int h - int y - 1) (int x)")
    case (Inl e)
    then have "e = IndexError" by (rule item3_error)
    with Inl p show ?thesis by simp
  next
    case (Inr v)
    with p Cons.IH show ?thesis by simp
  qed
qed

text \<open>
  C8. The precondition of \<open>apply_raster\<close> and its atomicity: it raises \<open>ValueError\<close>
  exactly when the shape of the data differs from \<open>(1, height, width)\<close>, and then the
  layer is as it was: no cell attribute is assigned and the set of attributes is
  unchanged.
\<close>

theorem apply_raster_shape_check:
  "(fst (apply_raster data attr_name L) = Some ValueError \<longleftrightarrow>
      shape data \<noteq> [1, height L, width L]) \<and>
   (shape data \<noteq> [1, height L, width L] \<longrightarrow>
      snd (apply_raster data attr_name L) = L \<and>
      cells (snd (apply_raster data attr_name L)) = cells L \<and>
      attributes (snd (apply_raster data attr_name L)) = attributes L)"
proof -
  have "apply_cells data a (height L) (raster_positions L) (cells L) \<noteq> Inl ValueError" for a
    by (rule apply_cells_no_ValueError)
  then show ?thesis
    by (auto simp: apply_raster_def Let_def split: sum.splits)
qed

theorem apply_raster_shape_check_witness:
  "shape raster_sample = [1, height layer_sample, width layer_sample] \<and>
   fst (apply_raster raster_sample (Some ''elevation'') layer_sample) \<noteq> Some ValueError \<and>
   shape (raster_sample\<lparr>shape := [2, 3]\<rparr>) \<noteq> [1, height layer_sample, width layer_sample] \<and>
   apply_raster (raster_sample\<lparr>shape := [2, 3]\<rparr>) (Some ''elevation'') layer_sample =
     (Some ValueError, layer_sample)"
proof -
  have a: "shape raster_sample = [1, height layer_sample, width layer_sample]"
    and b: "shape (raster_sample\<lparr>shape := [2, 3]\<rparr>) \<noteq>
      [1, height layer_sample, width layer_sample]"
    by (simp_all add: raster_sample_def layer_sample_def PatchModule_init_def)
  from apply_raster_shape_check [of raster_sample "Some ''elevation''" layer_sample] a
  have 1: "fst (apply_raster raster_sample (Some ''elevation'') layer_sample) \<noteq> Some ValueError"
    by blast
  from apply_raster_shape_check
    [of "raster_sample\<lparr>shape := [2, 3]\<rparr>" "Some ''elevation''" layer_sample] b
  have 2: "apply_raster (raster_sample\<lparr>shape := [2, 3]\<rparr>) (Some ''elevation'') layer_sample =
     (Some ValueError, layer_sample)"
    by (metis prod.collapse)
  from a 1 b 2 show ?thesis
    by (intro conjI)
qed

lemma wrap_index_nat: "x < n \<Longrightarrow> wrap_index n (int x) = Inr x"
  by (simp add: wrap_index_def)

lemma wrap_index_flip: "y < h \<Longrightarrow> wrap_index h (int h - int y - 1) = Inr (h - 1 - y)"
proof -
  assume "y < h"
  then have "int h - int y - 1 = int (h - 1 - y)" by linarith
  moreover have "h - 1 - y < h" using \<open>y < h\<close> by simp
  ultimately show ?thesis by (simp only: wrap_index_nat)
qed

lemma item3_raster:
  "shape data = [1, h, w] \<Longrightarrow> x < w \<Longrightarrow> y < h \<Longrightarrow>
     item3 data 0 (int h - int y - 1) (int x) = Inr (flat data ! ((h - 1 - y) * w + x))"
  using wrap_index_nat [of 0 1]
  by (simp add: item3_def wrap_index_flip wrap_index_nat)

lemma setitem3_raster:
  "shape data = [1, h, w] \<Longrightarrow> x < w \<Longrightarrow> y < h \<Longrightarrow>
     setitem3 tf data 0 (int h - int y - 1) (int x) v =
       (case tf v of
          Inl e \<Rightarrow> Inl e
        | Inr f \<Rightarrow> Inr (data\<lparr>flat := (flat data)[(h - 1 - y) * w + x := f]\<rparr>))"
  using wrap_index_nat [of 0 1]
  by (simp add: setitem3_def wrap_index_flip wrap_index_nat split: sum.splits)

lemma apply_cells_result:
  assumes "\<forall>(x, y) \<in> set ps. x < length cs \<and> y < length (cs ! x) \<and>
      item3 data 0 (int h - int y - 1) (int x) = Inr (g x y)"
  shows "\<exists>cs'. apply_cells data a h ps cs = Inr cs' \<and> length cs' = length cs \<and>
      (\<forall>x < length cs. length (cs' ! x) = length (cs ! x)) \<and>
      (\<forall>x y. x < length cs \<longrightarrow> y < length (cs ! x) \<longrightarrow>
         attrs (cs' ! x ! y) a = (if (x, y) \<in> set ps then Some (g x y) else attrs (cs ! x ! y) a))"
  using assms
proof (induction ps arbitrary: cs)
  case Nil
  then show ?case by simp
next
  case (Cons p ps)
  obtain x y where p: "p = (x, y)" by (cases p)
  from Cons.prems p have x: "x < length cs" and y: "y < length (cs ! x)"
    and v: "item3 data 0 (int h - int y - 1) (int x) = Inr (g x y)"
    by auto
  define cs1 where "cs1 = cs[x := (cs ! x)[y := setattr (cs ! x ! y) a (g x y)]]"
  have l1: "length cs1 = length cs" by (simp add: cs1_def)
  have l2: "length (cs1 ! x') = length (cs ! x')" if "x' < length cs" for x'
    using that by (cases "x' = x") (simp_all add: cs1_def)
  have a1: "attrs (cs1 ! x' ! y') a =
      (if (x', y') = (x, y) then Some (g x y) else attrs (cs ! x' ! y') a)"
    if "x' < length cs" "y' < length (cs ! x')" for x' y'
    using that by (cases "x' = x"; cases "y' = y") (simp_all add: cs1_def setattr_def)
  have "\<forall>(x', y') \<in> set ps. x' < length cs1 \<and> y' < length (cs1 ! x') \<and>
      item3 data 0 (int h - int y' - 1) (int x') = Inr (g x' y')"
    using Cons.prems l1 l2 by auto
  from Cons.IH [OF this] obtain cs' where r: "apply_cells data a h ps cs1 = Inr cs'"
    and k1: "length cs' = length cs1"
    and k2: "\<forall>x' < length cs1. length (cs' ! x') = length (cs1 ! x')"
    and k3: "\<forall>x' y'. x' < length cs1 \<longrightarrow> y' < length (cs1 ! x') \<longrightarrow>
       attrs (cs' ! x' ! y') a =
         (if (x', y') \<in> set ps then Some (g x' y') else attrs (cs1 ! x' ! y') a)"
    by blast
  have "apply_cells data a h (p # ps) cs = Inr cs'"
    using r v p by (simp add: cs1_def)
  moreover have "length cs' = length cs" using k1 l1 by simp
  moreover have "\<forall>x' < length cs. length (cs' ! x') = length (cs ! x')"
    using k2 l1 l2 by simp
  moreover have "\<forall>x' y'. x' < length cs \<longrightarrow> y' < length (cs ! x') \<longrightarrow>
       attrs (cs' ! x' ! y') a =
         (if (x', y') \<in> set (p # ps) then Some (g x' y') else attrs (cs ! x' ! y') a)"
  proof (intro allI impI)
    fix x' y'
    assume b: "x' < length cs" "y' < length (cs ! x')"
    then have "attrs (cs' ! x' ! y') a =
        (if (x', y') \<in> set ps then Some (g x' y') else attrs (cs1 ! x' ! y') a)"
      using k3 l1 l2 by simp
    with a1 [OF b] p show "attrs (cs' ! x' ! y') a =
        (if (x', y') \<in> set (p # ps) then Some (g x' y') else attrs (cs ! x' ! y') a)"
      by auto
  qed
  ultimately show ?case by blast
qed

lemma read_cells_result:
  assumes "shape data = [1, h, w]"
    and "\<forall>(x, y) \<in> set ps. x < w \<and> y < h \<and>
      getattr (cs ! x ! y) a = Inr (T ! ((h - 1 - y) * w + x)) \<and>
      tf (T ! ((h - 1 - y) * w + x)) = Inr (T ! ((h - 1 - y) * w + x))"
  shows "\<exists>data'. read_cells tf cs h (map (\<lambda>p. ((0, a), p)) ps) data = Inr data' \<and>
      shape data' = [1, h, w] \<and> length (flat data') = length (flat data) \<and>
      (\<forall>k < length (flat data). flat data' ! k =
         (if k \<in> (\<lambda>(x, y). (h - 1 - y) * w + x) ` set ps then T ! k else flat data ! k))"
  using assms
proof (induction ps arbitrary: data)
  case Nil
  then show ?case by simp
next
  case (Cons p ps)
  obtain x y where p: "p = (x, y)" by (cases p)
  define i where "i = (h - 1 - y) * w + x"
  from Cons.prems p have x: "x < w" and y: "y < h"
    and g: "getattr (cs ! x ! y) a = Inr (T ! i)" and c: "tf (T ! i) = Inr (T ! i)"
    by (auto simp: i_def)
  define data1 where "data1 = data\<lparr>flat := (flat data)[i := T ! i]\<rparr>"
  have s1: "shape data1 = [1, h, w]" using Cons.prems(1) by (simp add: data1_def)
  have st: "setitem3 tf data (int 0) (int h - int y - 1) (int x) (T ! i) = Inr data1"
    using setitem3_raster [OF Cons.prems(1) x y, of tf "T ! i"] c
    by (simp add: data1_def i_def)
  have "\<forall>(x, y) \<in> set ps. x < w \<and> y < h \<and>
      getattr (cs ! x ! y) a = Inr (T ! ((h - 1 - y) * w + x)) \<and>
      tf (T ! ((h - 1 - y) * w + x)) = Inr (T ! ((h - 1 - y) * w + x))"
    using Cons.prems(2) by simp
  from Cons.IH [OF s1 this] obtain data' where
    r: "read_cells tf cs h (map (\<lambda>p. ((0, a), p)) ps) data1 = Inr data'"
    and k1: "shape data' = [1, h, w]"
    and k2: "length (flat data') = length (flat data1)"
    and k3: "\<forall>k < length (flat data1). flat data' ! k =
         (if k \<in> (\<lambda>(x, y). (h - 1 - y) * w + x) ` set ps then T ! k else flat data1 ! k)"
    by blast
  have "read_cells tf cs h (map (\<lambda>p. ((0, a), p)) (p # ps)) data = Inr data'"
    using r g st p by simp
  moreover have "length (flat data') = length (flat data)"
    using k2 by (simp add: data1_def)
  moreover have "\<forall>k < length (flat data). flat data' ! k =
       (if k \<in> (\<lambda>(x, y). (h - 1 - y) * w + x) ` set (p # ps) then T ! k else flat data ! k)"
  proof (intro allI impI)
    fix k assume k: "k < length (flat data)"
    then have "flat data' ! k =
        (if k \<in> (\<lambda>(x, y). (h - 1 - y) * w + x) ` set ps then T ! k else flat data1 ! k)"
      using k3 by (simp add: data1_def)
    moreover have "flat data1 ! k = (if k = i then T ! k else flat data ! k)"
      using k by (simp add: data1_def nth_list_update)
    ultimately show "flat data' ! k =
       (if k \<in> (\<lambda>(x, y). (h - 1 - y) * w + x) ` set (p # ps) then T ! k else flat data ! k)"
      using p by (auto simp: i_def)
  qed
  ultimately show ?case using k1 by blast
qed

lemma raster_positions_cover:
  assumes "k < h * w"
  shows "k \<in> (\<lambda>(x, y). (h - 1 - y) * w + x) ` set (List.product [0..<w] [0..<h])"
proof -
  have w: "0 < w" using assms by (cases w) auto
  define x y where "x = k mod w" and "y = h - 1 - k div w"
  have kd: "k div w < h" using assms w by (simp add: less_mult_imp_div_less)
  have "x < w" "y < h" using w kd by (simp_all add: x_def y_def)
  moreover have "h - 1 - y = k div w" using kd by (simp add: y_def)
  then have "(h - 1 - y) * w + x = k" by (simp add: x_def)
  ultimately show ?thesis by (force simp: image_iff)
qed


lemma ndarray_eqI:
  "shape A = shape B \<Longrightarrow> flat A = flat B \<Longrightarrow> (A :: 'a ndarray) = B"
  by simp

text \<open>
  C2. Raster round trip, as the code has it: for a layer of height \<open>h\<close> and width \<open>w\<close>, an
  attribute name that is neither a dynamic variable nor a property of the cells, and an
  array \<open>d\<close> of shape \<open>(1, h, w)\<close> whose values are \<open>float64\<close> values (the conversion that
  assigning into the array of \<open>np.empty\<close> applies leaves them as they are),
  \<open>apply_raster(d, attr_name=a)\<close> gives the cell \<open>cells[x][y]\<close> the value \<open>d[0, h-y-1, x]\<close>,
  and \<open>get_raster(a)\<close> afterwards returns an array equal to \<open>d\<close>.
\<close>

theorem raster_round_trip:
  assumes wf: "wf_layer L"
    and nd: "dynamic_variables L a = None" and np: "a \<notin> set (cell_properties L)"
    and sh: "shape d = [1, height L, width L]" and wd: "wf_array d"
    and fl: "\<forall>v \<in> set (flat d). to_float64 v = Inr v"
  shows "\<exists>L'. apply_raster d (Some a) L = (None, L') \<and>
      (\<forall>x < width L. \<forall>y < height L.
         getattr (cells L' ! x ! y) a = item3 d 0 (int (height L) - int y - 1) (int x)) \<and>
      get_raster to_float64 junk (Some a) L' = (Inr d, L')"
proof -
  define w h where "w = width L" and "h = height L"
  define g where "g = (\<lambda>x y. flat d ! ((h - 1 - y) * w + x))"
  have shd: "shape d = [1, h, w]" using sh by (simp add: w_def h_def)
  have len: "length (cells L) = w" and cols: "\<forall>x < w. length (cells L ! x) = h"
    using wf by (simp_all add: wf_layer_def w_def h_def list_all_length)
  have ld: "length (flat d) = h * w"
    using wd shd by (simp add: wf_array_def)
  have pos: "set (raster_positions L) = {(x, y). x < w \<and> y < h}"
    by (auto simp: raster_positions_def w_def h_def)
  have "\<forall>(x, y) \<in> set (raster_positions L). x < length (cells L) \<and>
      y < length (cells L ! x) \<and> item3 d 0 (int h - int y - 1) (int x) = Inr (g x y)"
    using len cols by (auto simp: pos g_def item3_raster [OF shd])
  from apply_cells_result [OF this, of a] obtain cs' where
    ac: "apply_cells d a h (raster_positions L) (cells L) = Inr cs'"
    and at: "\<forall>x y. x < length (cells L) \<longrightarrow> y < length (cells L ! x) \<longrightarrow>
       attrs (cs' ! x ! y) a =
         (if (x, y) \<in> set (raster_positions L) then Some (g x y) else attrs (cells L ! x ! y) a)"
    by blast
  define L' where "L' = L\<lparr>own_attributes := List.insert a (own_attributes L), cells := cs'\<rparr>"
  have ap: "apply_raster d (Some a) L = (None, L')"
    using ac sh by (simp add: apply_raster_def L'_def h_def)
  have av: "attrs (cells L' ! x ! y) a = Some (g x y)" if "x < w" "y < h" for x y
    using that at len cols by (simp add: L'_def pos)
  have st: "\<forall>x < width L. \<forall>y < height L.
      getattr (cells L' ! x ! y) a = item3 d 0 (int (height L) - int y - 1) (int x)"
    using av item3_raster [OF shd] by (simp add: w_def h_def g_def getattr_def)
  have L'w: "width L' = w" "height L' = h" "dynamic_variables L' = dynamic_variables L"
    "raster_positions L' = raster_positions L"
    by (simp_all add: L'_def w_def h_def raster_positions_def)
  have ain: "a \<in> set (attributes L')"
    by (simp add: attributes_def L'_def)
  define E where "E = np_empty junk [length [a], h, w]"
  have she: "shape E = [1, h, w]" and le: "length (flat E) = h * w"
    by (simp_all add: E_def np_empty_def)
  have "\<forall>(x, y) \<in> set (raster_positions L). x < w \<and> y < h \<and>
      getattr (cells L' ! x ! y) a = Inr (flat d ! ((h - 1 - y) * w + x)) \<and>
      to_float64 (flat d ! ((h - 1 - y) * w + x)) = Inr (flat d ! ((h - 1 - y) * w + x))"
  proof (clarify, intro conjI)
    fix x y assume "(x, y) \<in> set (raster_positions L)"
    then have x: "x < w" and y: "y < h" by (simp_all add: pos)
    then show "x < w" "y < h" by simp_all
    show "getattr (cells L' ! x ! y) a = Inr (flat d ! ((h - 1 - y) * w + x))"
      using av [OF x y] by (simp add: getattr_def g_def)
    have "(h - 1 - y) * w + x < h * w"
    proof -
      have "(h - 1 - y) * w + x < (h - 1 - y) * w + w" using x by simp
      also have "\<dots> = (h - 1 - y + 1) * w" by simp
      also have "\<dots> \<le> h * w" using y by (intro mult_le_mono1) simp
      finally show ?thesis .
    qed
    then have "flat d ! ((h - 1 - y) * w + x) \<in> set (flat d)"
      using ld by simp
    with fl show "to_float64 (flat d ! ((h - 1 - y) * w + x)) =
        Inr (flat d ! ((h - 1 - y) * w + x))"
      by blast
  qed
  from read_cells_result [OF she this] obtain data' where
    rc: "read_cells to_float64 (cells L') h (map (\<lambda>p. ((0, a), p)) (raster_positions L)) E =
      Inr data'"
    and s': "shape data' = [1, h, w]" and l': "length (flat data') = length (flat E)"
    and v': "\<forall>k < length (flat E). flat data' ! k =
      (if k \<in> (\<lambda>(x, y). (h - 1 - y) * w + x) ` set (raster_positions L)
       then flat d ! k else flat E ! k)"
    by blast
  have "flat data' = flat d"
  proof (rule nth_equalityI)
    show "length (flat data') = length (flat d)" using l' le ld by simp
    fix k assume "k < length (flat data')"
    then have k: "k < h * w" using l' le by simp
    then have "k \<in> (\<lambda>(x, y). (h - 1 - y) * w + x) ` set (raster_positions L)"
      unfolding raster_positions_def w_def [symmetric] h_def [symmetric]
      by (rule raster_positions_cover)
    with v' k le show "flat data' ! k = flat d ! k" by simp
  qed
  with s' shd have dd: "data' = d" by (intro ndarray_eqI) simp_all
  have "read_bands to_float64 junk [a] L' =
      read_cells to_float64 (cells L') h (map (\<lambda>p. ((0, a), p)) (raster_positions L)) E"
    unfolding read_bands_def L'w E_def by simp
  with rc dd have "read_bands to_float64 junk [a] L' = Inr d"
    by simp
  then have gr: "get_raster to_float64 junk (Some a) L' = (Inr d, L')"
    using nd ain by (simp add: get_raster_def L'w)
  from ap st gr show ?thesis by blast
qed


theorem raster_round_trip_witness:
  "wf_layer layer_sample \<and> dynamic_variables layer_sample ''elevation'' = None \<and>
   shape raster_sample = [1, height layer_sample, width layer_sample] \<and>
   wf_array raster_sample \<and>
   fst (apply_raster raster_sample (Some ''elevation'') layer_sample) = None \<and>
   getattr (cells (snd (apply_raster raster_sample (Some ''elevation'') layer_sample)) ! 0 ! 0)
     ''elevation'' = Inr (Float64 20) \<and>
   get_raster to_float64_sample (\<lambda>k. Float64 0) (Some ''elevation'')
     (snd (apply_raster raster_sample (Some ''elevation'') layer_sample)) =
     (Inr raster_sample, snd (apply_raster raster_sample (Some ''elevation'') layer_sample))"
proof -
  have a: "wf_layer layer_sample"
    by (simp add: layer_sample_def wf_layer_init)
  have b: "dynamic_variables layer_sample ''elevation'' = None"
    and c: "''elevation'' \<notin> set (cell_properties layer_sample)"
    and d: "shape raster_sample = [1, height layer_sample, width layer_sample]"
    and wh: "0 < width layer_sample" "0 < height layer_sample"
    by (simp_all add: layer_sample_def PatchModule_init_def raster_sample_def)
  have e: "wf_array raster_sample"
    and f: "\<forall>v \<in> set (flat raster_sample). to_float64_sample v = Inr v"
    by (simp_all add: wf_array_def raster_sample_def)
  have i: "item3 raster_sample 0 (int (height layer_sample) - int 0 - 1) (int 0) =
      Inr (Float64 20)"
    by (simp add: item3_def wrap_index_def raster_sample_def layer_sample_def
        PatchModule_init_def)
  from raster_round_trip [OF a b c d e f, of "\<lambda>k. Float64 0"] obtain L' where
    1: "apply_raster raster_sample (Some ''elevation'') layer_sample = (None, L')"
    and 2: "\<forall>x < width layer_sample. \<forall>y < height layer_sample.
       getattr (cells L' ! x ! y) ''elevation'' =
         item3 raster_sample 0 (int (height layer_sample) - int y - 1) (int x)"
    and 3: "get_raster to_float64_sample (\<lambda>k. Float64 0) (Some ''elevation'') L' =
       (Inr raster_sample, L')"
    by blast
  from 2 wh i have 4: "getattr (cells L' ! 0 ! 0) ''elevation'' = Inr (Float64 20)"
    by simp
  from a b d e 1 3 4 show ?thesis
    by simp
qed

text \<open>
  The claim as the specification states it, for every array of shape \<open>(1, h, w)\<close>, fails
  for an array that holds a string that is no numeral: \<open>apply_raster\<close> stores it in the
  cell, and \<open>get_raster\<close> cannot assign it into the \<open>float64\<close> array of \<open>np.empty\<close>.
\<close>

theorem raster_round_trip_counterexample:
  "wf_layer layer_sample \<and> dynamic_variables layer_sample ''kind'' = None \<and>
   shape raster_text = [1, height layer_sample, width layer_sample] \<and>
   wf_array raster_text \<and>
   fst (apply_raster raster_text (Some ''kind'') layer_sample) = None \<and>
   fst (get_raster to_float64_sample (\<lambda>k. Float64 0) (Some ''kind'')
     (snd (apply_raster raster_text (Some ''kind'') layer_sample))) = Inl ValueError"
proof (intro conjI)
  show "wf_layer layer_sample"
    by (simp add: layer_sample_def wf_layer_init)
  show "dynamic_variables layer_sample ''kind'' = None"
    by (simp add: layer_sample_def PatchModule_init_def)
  show "shape raster_text = [1, height layer_sample, width layer_sample]"
    by (simp add: layer_sample_def PatchModule_init_def raster_text_def)
  show "wf_array raster_text"
    by (simp add: wf_array_def raster_text_def)
  show "fst (apply_raster raster_text (Some ''kind'') layer_sample) = None"
    by code_simp
  show "fst (get_raster to_float64_sample (\<lambda>k. Float64 0) (Some ''kind'')
     (snd (apply_raster raster_text (Some ''kind'') layer_sample))) = Inl ValueError"
    by code_simp
qed

end
